theory Spec2Isabelle
  imports Complex_Main
begin

section \<open>Strings of the host language\<close>

text \<open>
  A JavaScript string is a sequence of UTF-16 code units. A code unit is modelled as a
  natural number and a string as the list of its code units, so every string the
  browser can hand to the program is a value of \<open>jsstring\<close>. The literals of the source
  are ASCII and are written \<open>js ''...''\<close>. The fixed messages the validators return are
  kept as plain \<open>string\<close>s.
\<close>

type_synonym jsstring = "nat list"

definition js :: "string \<Rightarrow> jsstring" where
  "js s = map of_char s"

text \<open>ECMAScript \<open>LineTerminator\<close>: LF, CR, LS, PS.\<close>

definition isLineTerminator :: "nat \<Rightarrow> bool" where
  "isLineTerminator c = (c = 10 \<or> c = 13 \<or> c = 8232 \<or> c = 8233)"

text \<open>ECMAScript \<open>WhiteSpace\<close>: TAB, VT, FF, SP, NBSP, the category Zs, and the BOM.\<close>

definition isWhiteSpace :: "nat \<Rightarrow> bool" where
  "isWhiteSpace c = (c = 9 \<or> c = 11 \<or> c = 12 \<or> c = 32 \<or> c = 160 \<or> c = 5760
     \<or> (8192 \<le> c \<and> c \<le> 8202) \<or> c = 8239 \<or> c = 8287 \<or> c = 12288 \<or> c = 65279)"

text \<open>The class \<open>\s\<close> of a regular expression, which is also what \<open>trim\<close> strips.\<close>

definition isSpace :: "nat \<Rightarrow> bool" where
  "isSpace c = (isWhiteSpace c \<or> isLineTerminator c)"

text \<open>The class \<open>\d\<close>.\<close>

definition isDigit :: "nat \<Rightarrow> bool" where
  "isDigit c = (48 \<le> c \<and> c \<le> 57)"

text \<open>The class \<open>\w\<close>: \<open>[A-Za-z0-9_]\<close>.\<close>

definition isWord :: "nat \<Rightarrow> bool" where
  "isWord c = ((65 \<le> c \<and> c \<le> 90) \<or> (97 \<le> c \<and> c \<le> 122) \<or> isDigit c \<or> c = 95)"

text \<open>
  \<open>Canonicalize\<close> of a case-insensitive pattern without the \<open>u\<close> flag, on the code
  units that matter here: an ASCII lower-case letter is mapped to its upper-case
  letter. A code unit from 128 on is never mapped below 128, so it never becomes equal
  to the canonical form of an ASCII character, and it is left alone.
\<close>

definition canonicalize :: "nat \<Rightarrow> nat" where
  "canonicalize c = (if 97 \<le> c \<and> c \<le> 122 then c - 32 else c)"

text \<open>\<open>String.prototype.trim\<close>.\<close>

definition trim :: "jsstring \<Rightarrow> jsstring" where
  "trim s = rev (dropWhile isSpace (rev (dropWhile isSpace s)))"

section \<open>Numbers\<close>

text \<open>
  A JavaScript number is \<open>NaN\<close>, an infinity or a finite value. The finite values are
  modelled by the rationals. The arithmetic defined here is exact, and \<open>parseFloat\<close>
  gives the exact value of a decimal text where the host gives the double nearest to
  it. They are used where the code looks at the sign of a result or at the outcome of
  a comparison, which the rounding of IEEE doubles does not change: the difference of
  two doubles is negative, zero or positive as the exact difference is (the comparison
  function of the sort); and rounding to nearest is monotone, and \<open>0\<close>, \<open>10000\<close> and
  \<open>1000000\<close> are doubles, so on a string the amount pattern accepts (a multiple of
  \<open>0.01\<close>) the comparisons of \<open>validateForm\<close> against \<open>0\<close> and \<open>999999.99\<close> have the
  same outcome on doubles as on the exact values. Where the code returns a sum or a
  difference (\<open>getBudgetInfo\<close>), the addition and the subtraction of the host are
  parameters of the model; on small integers, such as \<open>100\<close> and \<open>50\<close>, the doubles
  add and subtract without rounding, as the exact arithmetic does.
\<close>

datatype jsnum = NaN | Fin rat | PosInf | NegInf

fun num_lt :: "jsnum \<Rightarrow> jsnum \<Rightarrow> bool" where
  "num_lt (Fin a) (Fin b) = (a < b)"
| "num_lt (Fin a) PosInf = True"
| "num_lt NegInf (Fin b) = True"
| "num_lt NegInf PosInf = True"
| "num_lt _ _ = False"

definition num_gt :: "jsnum \<Rightarrow> jsnum \<Rightarrow> bool" where
  "num_gt a b = num_lt b a"

definition num_le :: "jsnum \<Rightarrow> jsnum \<Rightarrow> bool" where
  "num_le a b = (a \<noteq> NaN \<and> b \<noteq> NaN \<and> \<not> num_lt b a)"

fun num_neg :: "jsnum \<Rightarrow> jsnum" where
  "num_neg (Fin a) = Fin (- a)"
| "num_neg PosInf = NegInf"
| "num_neg NegInf = PosInf"
| "num_neg NaN = NaN"

fun num_add :: "jsnum \<Rightarrow> jsnum \<Rightarrow> jsnum" where
  "num_add (Fin a) (Fin b) = Fin (a + b)"
| "num_add NaN _ = NaN"
| "num_add _ NaN = NaN"
| "num_add PosInf NegInf = NaN"
| "num_add NegInf PosInf = NaN"
| "num_add PosInf _ = PosInf"
| "num_add NegInf _ = NegInf"
| "num_add (Fin a) b = b"

definition num_sub :: "jsnum \<Rightarrow> jsnum \<Rightarrow> jsnum" where
  "num_sub a b = num_add a (num_neg b)"

text \<open>\<open>Math.abs\<close>.\<close>

fun num_abs :: "jsnum \<Rightarrow> jsnum" where
  "num_abs (Fin a) = Fin \<bar>a\<bar>"
| "num_abs NaN = NaN"
| "num_abs _ = PosInf"

text \<open>The value of a run of decimal digits.\<close>

definition digits_val :: "jsstring \<Rightarrow> nat" where
  "digits_val ds = foldl (\<lambda>a c. 10 * a + (c - 48)) 0 ds"

text \<open>An optional sign in front of the rest of the string.\<close>

fun signed :: "jsstring \<Rightarrow> int \<times> jsstring" where
  "signed [] = (1, [])"
| "signed (c # cs) = (if c = 43 then (1, cs) else if c = 45 then (- 1, cs) else (1, c # cs))"

text \<open>\<open>ExponentPart\<close>, when the rest of the string starts with one; otherwise \<open>0\<close>.\<close>

fun exponent :: "jsstring \<Rightarrow> int" where
  "exponent [] = 0"
| "exponent (c # cs) =
     (if c = 101 \<or> c = 69
      then (let (sg, r) = signed cs; ds = takeWhile isDigit r
            in if ds = [] then 0 else sg * int (digits_val ds))
      else 0)"

text \<open>
  \<open>parseFloat\<close>: leading white space is skipped and the longest prefix that is a
  \<open>StrDecimalLiteral\<close> is read: a sign, then \<open>Infinity\<close> or digits with an optional
  fraction and an optional exponent; there must be a digit before the exponent.
\<close>

definition parseFloat :: "jsstring \<Rightarrow> jsnum" where
  "parseFloat s =
     (let (sg, u) = signed (dropWhile isSpace s) in
      if take 8 u = js ''Infinity'' then (if sg = 1 then PosInf else NegInf)
      else
        let ip = takeWhile isDigit u;
            r1 = dropWhile isDigit u;
            fp = (case r1 of [] \<Rightarrow> [] | c # r \<Rightarrow> if c = 46 then takeWhile isDigit r else []);
            r2 = (case r1 of [] \<Rightarrow> [] | c # r \<Rightarrow> if c = 46 then dropWhile isDigit r else r1)
        in if ip = [] \<and> fp = [] then NaN
           else Fin (of_int sg
                  * (of_nat (digits_val ip) + of_nat (digits_val fp) / 10 ^ length fp)
                  * (10 powi exponent r2)))"

section \<open>JSON values and the result of an import\<close>

text \<open>
  The value that \<open>JSON.parse\<close> returns: an object is the list of its properties. A
  number is the number parsed (\<open>JSON.parse\<close> never yields \<open>NaN\<close>).
\<close>

datatype json =
    JNull
  | JBool bool
  | JNum jsnum
  | JStr jsstring
  | JArr "json list"
  | JObj "(jsstring \<times> json) list"

text \<open>The object \<open>{success, data, message}\<close> that \<open>importData\<close> returns; \<open>None\<close> is \<open>null\<close>.\<close>

record import_result =
  success :: bool
  data :: "json list option"
  message :: string

section \<open>Regular expressions of the validators\<close>

text \<open>
  The three format patterns of \<open>REGEX_PATTERNS\<close> are anchored at both ends
  (\<open>^...$\<close>, no flags), use no back-reference and are tested with
  \<open>RegExp.prototype.test\<close>: the test succeeds iff the whole string belongs to the
  language of the pattern. Patterns are values of \<open>rx\<close>, a character class being a
  predicate on code units, and the test runs the pattern over the string by
  derivatives.
\<close>

datatype rx =
    Never
  | Epsilon
  | Cls "nat \<Rightarrow> bool"
  | Alt rx rx
  | Cat rx rx
  | Star rx

fun nullable :: "rx \<Rightarrow> bool" where
  "nullable Never = False"
| "nullable Epsilon = True"
| "nullable (Cls p) = False"
| "nullable (Alt r s) = (nullable r \<or> nullable s)"
| "nullable (Cat r s) = (nullable r \<and> nullable s)"
| "nullable (Star r) = True"

fun deriv :: "nat \<Rightarrow> rx \<Rightarrow> rx" where
  "deriv c Never = Never"
| "deriv c Epsilon = Never"
| "deriv c (Cls p) = (if p c then Epsilon else Never)"
| "deriv c (Alt r s) = Alt (deriv c r) (deriv c s)"
| "deriv c (Cat r s) =
     (if nullable r then Alt (Cat (deriv c r) s) (deriv c s) else Cat (deriv c r) s)"
| "deriv c (Star r) = Cat (deriv c r) (Star r)"

fun derivs :: "rx \<Rightarrow> jsstring \<Rightarrow> rx" where
  "derivs r [] = r"
| "derivs r (c # cs) = derivs (deriv c r) cs"

definition test_anchored :: "rx \<Rightarrow> jsstring \<Rightarrow> bool" where
  "test_anchored r s = nullable (derivs r s)"

text \<open>The pattern syntax used by the source: a literal character, a range, \<open>r?\<close>, \<open>.\<close>, \<open>\S\<close>, \<open>\d\<close>, a sequence.\<close>

definition Chr :: "char \<Rightarrow> rx" where
  "Chr c = Cls (\<lambda>x. x = of_char c)"

definition CharRange :: "char \<Rightarrow> char \<Rightarrow> rx" where
  "CharRange a b = Cls (\<lambda>x. of_char a \<le> x \<and> x \<le> of_char b)"

definition Opt :: "rx \<Rightarrow> rx" where
  "Opt r = Alt r Epsilon"

definition Dot :: rx where
  "Dot = Cls (\<lambda>x. \<not> isLineTerminator x)"

definition NonSpace :: rx where
  "NonSpace = Cls (\<lambda>x. \<not> isSpace x)"

definition Digit :: rx where
  "Digit = Cls isDigit"

fun Sequence :: "rx list \<Rightarrow> rx" where
  "Sequence [] = Epsilon"
| "Sequence (r # rs) = Cat r (Sequence rs)"

text \<open>\<^verbatim>\<open>description: /^\S(?:.*\S)?$/\<close>\<close>

definition rx_description :: rx where
  "rx_description = Sequence [NonSpace, Opt (Sequence [Star Dot, NonSpace])]"

text \<open>\<^verbatim>\<open>amount: /^(0|[1-9]\d*)(\.\d{1,2})?$/\<close>\<close>

definition rx_amount :: rx where
  "rx_amount =
     Sequence [Alt (Chr CHR ''0'') (Cat (CharRange CHR ''1'' CHR ''9'') (Star Digit)),
          Opt (Sequence [Chr CHR ''.'', Digit, Opt Digit])]"

text \<open>\<^verbatim>\<open>date: /^\d{4}-(0[1-9]|1[0-2])-(0[1-9]|[12]\d|3[01])$/\<close>\<close>

definition rx_date :: rx where
  "rx_date =
     Sequence [Digit, Digit, Digit, Digit, Chr CHR ''-'',
          Alt (Cat (Chr CHR ''0'') (CharRange CHR ''1'' CHR ''9''))
              (Cat (Chr CHR ''1'') (CharRange CHR ''0'' CHR ''2'')),
          Chr CHR ''-'',
          Alt (Cat (Chr CHR ''0'') (CharRange CHR ''1'' CHR ''9''))
         (Alt (Cat (CharRange CHR ''1'' CHR ''2'') Digit)
              (Cat (Chr CHR ''3'') (CharRange CHR ''0'' CHR ''1'')))]"

text \<open>
  \<^verbatim>\<open>duplicateWords: /\b(\w+)\s+\1\b/i\<close> has a back-reference and is not anchored; its
  test is written out. A match that starts at the head of \<open>s\<close>, the position before it
  being a word boundary: the group takes word characters and is followed by \<open>\s\<close>, so
  it takes the whole run of word characters; \<open>\s+\<close> is followed by the first
  character of the group, so it takes the whole run of white space; the back-reference
  matches as many characters as the group has, compared after \<open>Canonicalize\<close>; the
  final \<open>\b\<close> wants the end of the string or a non-word character.
\<close>

definition dup_at :: "jsstring \<Rightarrow> bool" where
  "dup_at s =
     (let w = takeWhile isWord s;
          r1 = dropWhile isWord s;
          sp = takeWhile isSpace r1;
          r2 = dropWhile isSpace r1;
          w2 = take (length w) r2;
          r3 = drop (length w) r2
      in w \<noteq> [] \<and> sp \<noteq> [] \<and> map canonicalize w2 = map canonicalize w
         \<and> (case r3 of [] \<Rightarrow> True | c # _ \<Rightarrow> \<not> isWord c))"

text \<open>
  The search over the start positions; \<open>prev\<close> says whether the character before the
  position is a word character (\<open>False\<close> at the start of the string).
\<close>

fun dup_scan :: "bool \<Rightarrow> jsstring \<Rightarrow> bool" where
  "dup_scan prev [] = False"
| "dup_scan prev (c # cs) = ((\<not> prev \<and> dup_at (c # cs)) \<or> dup_scan (isWord c) cs)"

datatype regexp = Anchored rx | DuplicateWords

fun test :: "regexp \<Rightarrow> jsstring \<Rightarrow> bool" where
  "test (Anchored r) s = test_anchored r s"
| "test DuplicateWords s = dup_scan False s"

text \<open>
  \<open>REGEX_PATTERNS[ruleName]\<close>. The object has four keys of its own; a name it inherits
  from \<open>Object.prototype\<close> reads as a function, which is truthy and has no \<open>test\<close>
  method; any other name reads as \<open>undefined\<close>.
\<close>

datatype lookup = Own regexp | Inherited | Undefined

definition object_prototype_keys :: "string list" where
  "object_prototype_keys =
     [''constructor'', ''hasOwnProperty'', ''isPrototypeOf'', ''propertyIsEnumerable'',
      ''toLocaleString'', ''toString'', ''valueOf'', ''__proto__'',
      ''__defineGetter__'', ''__defineSetter__'', ''__lookupGetter__'', ''__lookupSetter__'']"

definition REGEX_PATTERNS :: "string \<Rightarrow> lookup" where
  "REGEX_PATTERNS ruleName =
     (if ruleName = ''description'' then Own (Anchored rx_description)
      else if ruleName = ''amount'' then Own (Anchored rx_amount)
      else if ruleName = ''date'' then Own (Anchored rx_date)
      else if ruleName = ''duplicateWords'' then Own DuplicateWords
      else if ruleName \<in> set object_prototype_keys then Inherited
      else Undefined)"

section \<open>Field validation\<close>

datatype js_error = TypeError | SyntaxError | Error string

record verdict =
  isValid :: bool

record validation = verdict +
  message :: string

text \<open>
  \<open>getValidationMessage\<close> is private to the module and is called only from
  \<open>validateField\<close>, with the name of one of the four patterns.
\<close>

definition getValidationMessage :: "string \<Rightarrow> string" where
  "getValidationMessage ruleName =
     (if ruleName = ''amount''
        then ''Amount must be a positive number with maximum 2 decimal places.''
      else if ruleName = ''date'' then ''Date must be in YYYY-MM-DD format.''
      else if ruleName = ''duplicateWords'' then ''Description contains duplicate words.''
      else ''Invalid format.'')"

text \<open>
  \<open>validateField(ruleName, value)\<close>. The call \<open>regex.test\<close> on an inherited property
  throws a \<open>TypeError\<close>.
\<close>

definition validateField :: "string \<Rightarrow> jsstring \<Rightarrow> js_error + validation" where
  "validateField ruleName val =
     (if val = [] \<or> trim val = []
        then Inr \<lparr>isValid = False, message = ''This field is required.''\<rparr>
      else case REGEX_PATTERNS ruleName of
        Undefined \<Rightarrow> Inr \<lparr>isValid = False, message = ''Unknown validation rule.''\<rparr>
      | Inherited \<Rightarrow> Inl TypeError
      | Own regex \<Rightarrow>
          if ruleName = ''description'' \<and> \<not> test regex (trim val)
            then Inr \<lparr>isValid = False,
                      message = ''Description cannot have leading or trailing spaces.''\<rparr>
          else if \<not> test regex val
            then Inr \<lparr>isValid = False, message = getValidationMessage ruleName\<rparr>
          else Inr \<lparr>isValid = True, message = ''''\<rparr>)"

section \<open>Dates\<close>

text \<open>
  Time values are milliseconds since the epoch; \<open>None\<close> is the time value \<open>NaN\<close> of an
  invalid date. The day arithmetic is that of ECMAScript (\<open>DayFromYear\<close>, \<open>MakeDay\<close>,
  \<open>MakeDate\<close>), with months counted from \<open>0\<close>.
\<close>

definition msPerDay :: int where
  "msPerDay = 86400000"

definition InLeapYear :: "int \<Rightarrow> bool" where
  "InLeapYear y = (y mod 4 = 0 \<and> (y mod 100 \<noteq> 0 \<or> y mod 400 = 0))"

definition DayFromYear :: "int \<Rightarrow> int" where
  "DayFromYear y =
     365 * (y - 1970) + (y - 1969) div 4 - (y - 1901) div 100 + (y - 1601) div 400"

text \<open>The number of days of the year before the first day of month \<open>mn\<close> (\<open>0\<close> to \<open>11\<close>).\<close>

definition daysBeforeMonth :: "bool \<Rightarrow> int \<Rightarrow> int" where
  "daysBeforeMonth leap mn =
     [0, 31, 59, 90, 120, 151, 181, 212, 243, 273, 304, 334] ! nat mn
       + (if leap \<and> 2 \<le> mn then 1 else 0)"

definition DaysInMonth :: "int \<Rightarrow> int \<Rightarrow> int" where
  "DaysInMonth y mn =
     (if mn = 1 then (if InLeapYear y then 29 else 28)
      else if mn = 3 \<or> mn = 5 \<or> mn = 8 \<or> mn = 10 then 30 else 31)"

definition MakeDay :: "int \<Rightarrow> int \<Rightarrow> int \<Rightarrow> int" where
  "MakeDay yr mo dt =
     (let ym = yr + mo div 12; mn = mo mod 12
      in DayFromYear ym + daysBeforeMonth (InLeapYear ym) mn + dt - 1)"

definition MakeDate :: "int \<Rightarrow> int \<Rightarrow> int" where
  "MakeDate dy tm = dy * msPerDay + tm"

text \<open>
  The host: the current instant and the way its \<open>Date\<close> parses. The instant that
  \<open>new Date()\<close> returns is given by its local calendar fields, the form in which
  \<open>getFullYear\<close> and \<open>setFullYear\<close> read and write it (they are the arguments with
  which the \<open>Date\<close> constructor would build it), and by the offset of local time from
  UTC at that instant and at the instant one calendar year earlier. \<open>validateForm\<close>
  calls \<open>new Date()\<close> twice; the two calls are taken to return the same instant.

  \<open>rollsOver\<close> tells what \<open>new Date("YYYY-MM-DD")\<close> does with a day that the month
  does not have, such as February 30: ECMAScript makes the date invalid (\<open>False\<close>); V8
  accepts any day up to 31 and rolls it over into the next month (\<open>True\<close>).
\<close>

record clock =
  fullYear :: int
  monthIndex :: int
  dayOfMonth :: int
  timeInDay :: int
  localTZA :: int
  localTZA_yearAgo :: int
  rollsOver :: bool

text \<open>The time value of \<open>new Date()\<close>.\<close>

definition today :: "clock \<Rightarrow> int" where
  "today clk =
     MakeDate (MakeDay (fullYear clk) (monthIndex clk) (dayOfMonth clk)) (timeInDay clk)
       - localTZA clk"

text \<open>
  \<open>oneYearAgo = new Date(); oneYearAgo.setFullYear(today.getFullYear() - 1)\<close>: the
  local month, day and time of day are kept and the year is replaced.
\<close>

definition oneYearAgo :: "clock \<Rightarrow> int" where
  "oneYearAgo clk =
     MakeDate (MakeDay (fullYear clk - 1) (monthIndex clk) (dayOfMonth clk)) (timeInDay clk)
       - localTZA_yearAgo clk"

text \<open>
  \<open>new Date(s)\<close> for a string that has passed the date pattern, which is the only use
  the validator makes of it: a date-only ISO string is midnight UTC of that day.
\<close>

definition parseDate :: "clock \<Rightarrow> jsstring \<Rightarrow> int option" where
  "parseDate clk s =
     (let y = int (digits_val (take 4 s));
          m = int (digits_val (take 2 (drop 5 s)));
          d = int (digits_val (take 2 (drop 8 s)))
      in if test_anchored rx_date s \<and> (d \<le> DaysInMonth y (m - 1) \<or> rollsOver clk)
         then Some (MakeDate (MakeDay y (m - 1) d) 0)
         else None)"

text \<open>\<open>a > b\<close> and \<open>a < b\<close> on two dates compare the time values; with \<open>NaN\<close> both are false.\<close>

fun date_lt :: "int option \<Rightarrow> int option \<Rightarrow> bool" where
  "date_lt (Some a) (Some b) = (a < b)"
| "date_lt _ _ = False"

definition date_gt :: "int option \<Rightarrow> int option \<Rightarrow> bool" where
  "date_gt a b = date_lt b a"

section \<open>Form validation\<close>

text \<open>
  The form data: the values of the inputs of the record form, which are strings. The
  same fields with a numeric amount make a stored record, see below.
\<close>

record 'a entry =
  id_rec :: jsstring
  description :: jsstring
  amount :: 'a
  category :: jsstring
  date :: jsstring

type_synonym formData = "jsstring entry"

record form_result = verdict +
  errors :: "string \<rightharpoonup> string"
  warnings :: "string \<rightharpoonup> string"

text \<open>\<open>formData[field]\<close> for the names of \<open>requiredFields\<close>.\<close>

definition formField :: "formData \<Rightarrow> string \<Rightarrow> jsstring" where
  "formField fd field =
     (if field = ''description'' then description fd
      else if field = ''amount'' then amount fd
      else if field = ''date'' then date fd
      else category fd)"

text \<open>\<open>field.charAt(0).toUpperCase() + field.slice(1)\<close>, on the ASCII names of the fields.\<close>

fun capitalize :: "string \<Rightarrow> string" where
  "capitalize [] = []"
| "capitalize (c # cs) =
     (if (97::nat) \<le> of_char c \<and> of_char c \<le> (122::nat)
      then char_of (of_char c - (32::nat)) else c) # cs"

definition requiredFields :: "string list" where
  "requiredFields = [''description'', ''amount'', ''date'', ''category'']"

definition fail :: "string \<Rightarrow> string \<Rightarrow> form_result \<Rightarrow> form_result" where
  "fail field msg acc = acc\<lparr>errors := (errors acc)(field \<mapsto> msg), isValid := False\<rparr>"

definition check_required :: "formData \<Rightarrow> form_result \<Rightarrow> string \<Rightarrow> form_result" where
  "check_required fd acc field =
     (if formField fd field = [] \<or> trim (formField fd field) = []
      then fail field (capitalize field @ '' is required.'') acc
      else acc)"

definition check_description :: "formData \<Rightarrow> form_result \<Rightarrow> js_error + form_result" where
  "check_description fd acc =
     (if description fd = [] then Inr acc
      else case validateField ''description'' (description fd) of
        Inl e \<Rightarrow> Inl e
      | Inr descResult \<Rightarrow>
          Inr (if \<not> isValid descResult then fail ''description'' (message descResult) acc
               else acc))"

definition check_amount :: "formData \<Rightarrow> form_result \<Rightarrow> js_error + form_result" where
  "check_amount fd acc =
     (if amount fd = [] then Inr acc
      else case validateField ''amount'' (amount fd) of
        Inl e \<Rightarrow> Inl e
      | Inr amountResult \<Rightarrow>
          Inr (if \<not> isValid amountResult then fail ''amount'' (message amountResult) acc
               else if num_le (parseFloat (amount fd)) (Fin 0)
                 then fail ''amount'' ''Amount must be greater than 0.'' acc
               else if num_gt (parseFloat (amount fd)) (Fin 999999.99)
                 then fail ''amount'' ''Amount is too large.'' acc
               else acc))"

definition check_date :: "clock \<Rightarrow> formData \<Rightarrow> form_result \<Rightarrow> js_error + form_result" where
  "check_date clk fd acc =
     (if date fd = [] then Inr acc
      else case validateField ''date'' (date fd) of
        Inl e \<Rightarrow> Inl e
      | Inr dateResult \<Rightarrow>
          Inr (if \<not> isValid dateResult then fail ''date'' (message dateResult) acc
               else if date_gt (parseDate clk (date fd)) (Some (today clk))
                 then fail ''date'' ''Date cannot be in the future.'' acc
               else if date_lt (parseDate clk (date fd)) (Some (oneYearAgo clk))
                 then fail ''date'' ''Date cannot be more than one year ago.'' acc
               else acc))"

definition check_warnings :: "formData \<Rightarrow> form_result \<Rightarrow> form_result" where
  "check_warnings fd acc =
     (let acc1 =
        (if description fd \<noteq> [] \<and> test DuplicateWords (description fd)
         then acc\<lparr>warnings := (warnings acc)(''duplicateWords'' \<mapsto>
                ''Warning: Description contains duplicate words.'')\<rparr>
         else acc)
      in if amount fd \<noteq> [] \<and> num_gt (parseFloat (amount fd)) (Fin 10000)
         then acc1\<lparr>warnings := (warnings acc1)(''largeAmount'' \<mapsto>
                ''Warning: This is a large amount. Please verify.'')\<rparr>
         else acc1)"

text \<open>Sequencing of steps that may throw.\<close>

fun and_then :: "js_error + 'a \<Rightarrow> ('a \<Rightarrow> js_error + 'b) \<Rightarrow> js_error + 'b" where
  "and_then (Inl e) f = Inl e"
| "and_then (Inr x) f = f x"

definition validateForm :: "clock \<Rightarrow> formData \<Rightarrow> js_error + form_result" where
  "validateForm clk fd =
     and_then (check_description fd
                (foldl (check_required fd)
                   \<lparr>isValid = True, errors = Map.empty, warnings = Map.empty\<rparr> requiredFields))
       (\<lambda>acc1. and_then (check_amount fd acc1)
       (\<lambda>acc2. and_then (check_date clk fd acc2)
       (\<lambda>acc3. Inr (check_warnings fd acc3))))"

text \<open>
  What the validator says about one field: the entry of \<open>errors\<close> for it, when
  \<open>validateForm\<close> returns; \<open>Inr None\<close> is a form whose field is accepted.
\<close>

definition field_error :: "string \<Rightarrow> js_error + form_result \<Rightarrow> js_error + string option" where
  "field_error field res = (case res of Inl e \<Rightarrow> Inl e | Inr r \<Rightarrow> Inr (errors r field))"

section \<open>The formats as the specification words them\<close>

text \<open>
  Amount: an integer with no leading zero (or exactly \<open>0\<close>), optionally followed by a
  decimal point and 1--2 digits.
\<close>

definition amount_format :: "jsstring \<Rightarrow> bool" where
  "amount_format s =
     (let ip = takeWhile isDigit s; rest = dropWhile isDigit s
      in (ip = js ''0'' \<or> (case ip of [] \<Rightarrow> False | c # _ \<Rightarrow> c \<noteq> 48))
         \<and> (case rest of [] \<Rightarrow> True
             | c # ds \<Rightarrow> c = 46 \<and> (length ds = 1 \<or> length ds = 2) \<and> list_all isDigit ds))"






definition noon_clock :: clock where
  "noon_clock = \<lparr>fullYear = 2026, monthIndex = 10, dayOfMonth = 3, timeInDay = 43200000,
     localTZA = 0, localTZA_yearAgo = 0, rollsOver = False\<rparr>"

definition blank_form :: formData where
  "blank_form = \<lparr>id_rec = [], description = [], amount = [], category = [], date = []\<rparr>"

section \<open>The language of a pattern\<close>

text \<open>
  The set of strings a pattern denotes, against which the test by derivatives is
  proved, and the shape of the parts of the amount and date patterns.
\<close>

definition conc :: "jsstring set \<Rightarrow> jsstring set \<Rightarrow> jsstring set" where
  "conc A B = {u @ v | u v. u \<in> A \<and> v \<in> B}"

inductive_set star :: "jsstring set \<Rightarrow> jsstring set" for A :: "jsstring set" where
  star_empty: "[] \<in> star A"
| star_step: "u \<in> A \<Longrightarrow> v \<in> star A \<Longrightarrow> u @ v \<in> star A"

fun lang :: "rx \<Rightarrow> jsstring set" where
  "lang Never = {}"
| "lang Epsilon = {[]}"
| "lang (Cls p) = {[c] | c. p c}"
| "lang (Alt r s) = lang r \<union> lang s"
| "lang (Cat r s) = conc (lang r) (lang s)"
| "lang (Star r) = star (lang r)"

definition int_part :: "jsstring \<Rightarrow> bool" where
  "int_part ip =
     (ip = [48] \<or> (\<exists>c ds. ip = c # ds \<and> 49 \<le> c \<and> c \<le> 57 \<and> list_all isDigit ds))"

definition frac_part :: "jsstring \<Rightarrow> bool" where
  "frac_part fr =
     (fr = [] \<or> (\<exists>ds. fr = 46 # ds \<and> (length ds = 1 \<or> length ds = 2) \<and> list_all isDigit ds))"

definition month_digits :: "nat \<Rightarrow> nat \<Rightarrow> bool" where
  "month_digits a b = ((a = 48 \<and> 49 \<le> b \<and> b \<le> 57) \<or> (a = 49 \<and> 48 \<le> b \<and> b \<le> 50))"

definition day_digits :: "nat \<Rightarrow> nat \<Rightarrow> bool" where
  "day_digits a b = ((a = 48 \<and> 49 \<le> b \<and> b \<le> 57) \<or> (49 \<le> a \<and> a \<le> 50 \<and> isDigit b)
      \<or> (a = 51 \<and> 48 \<le> b \<and> b \<le> 49))"

text \<open>
  The entry of \<open>errors\<close> that the amount and date steps of \<open>validateForm\<close> leave, given
  the entry \<open>prev\<close> that the required-field loop left.
\<close>

definition amount_error :: "jsstring \<Rightarrow> string option \<Rightarrow> string option" where
  "amount_error v prev =
     (if v = [] then prev
      else if trim v = [] then Some ''This field is required.''
      else if \<not> test_anchored rx_amount v
        then Some ''Amount must be a positive number with maximum 2 decimal places.''
      else if num_le (parseFloat v) (Fin 0) then Some ''Amount must be greater than 0.''
      else if num_gt (parseFloat v) (Fin 999999.99) then Some ''Amount is too large.''
      else prev)"

definition date_error :: "clock \<Rightarrow> jsstring \<Rightarrow> string option \<Rightarrow> string option" where
  "date_error clk v prev =
     (if v = [] then prev
      else if trim v = [] then Some ''This field is required.''
      else if \<not> test_anchored rx_date v then Some ''Date must be in YYYY-MM-DD format.''
      else if date_gt (parseDate clk v) (Some (today clk)) then Some ''Date cannot be in the future.''
      else if date_lt (parseDate clk v) (Some (oneYearAgo clk))
        then Some ''Date cannot be more than one year ago.''
      else prev)"

section \<open>Sanitizing input\<close>

text \<open>\<open>s.replace(/c/g, rep)\<close> for a single character \<open>c\<close>.\<close>

definition replace_char :: "nat \<Rightarrow> jsstring \<Rightarrow> jsstring \<Rightarrow> jsstring" where
  "replace_char c rep s = concat (map (\<lambda>x. if x = c then rep else [x]) s)"

text \<open>
  \<open>s.replace(re, '')\<close> for a global pattern that matches no empty string. \<open>m\<close> gives
  the length of the match that starts at the head of a string, if there is one. The
  scan goes from left to right; after a match it resumes behind it.
\<close>

fun remove_all :: "(jsstring \<Rightarrow> nat option) \<Rightarrow> jsstring \<Rightarrow> jsstring" where
  "remove_all m [] = []"
| "remove_all m (c # cs) =
     (case m (c # cs) of
        None \<Rightarrow> c # remove_all m cs
      | Some n \<Rightarrow> remove_all m (drop (n - 1) cs))"

text \<open>\<^verbatim>\<open>/javascript:/gi\<close>: the eleven characters, compared after \<open>Canonicalize\<close>.\<close>

definition match_javascript :: "jsstring \<Rightarrow> nat option" where
  "match_javascript s =
     (if map canonicalize (take 11 s) = map canonicalize (js ''javascript:'') then Some 11
      else None)"

text \<open>
  \<^verbatim>\<open>/on\w+\s*=/gi\<close>: after \<open>on\<close>, the group \<open>\w+\<close> is followed by \<open>\s\<close> or \<open>=\<close>, which
  are not word characters, so it takes the whole run of word characters; \<open>\s*\<close> is
  followed by \<open>=\<close>, so it takes the whole run of white space.
\<close>

definition match_handler :: "jsstring \<Rightarrow> nat option" where
  "match_handler s =
     (let r = drop 2 s;
          w = takeWhile isWord r;
          r1 = dropWhile isWord r;
          sp = takeWhile isSpace r1;
          r2 = dropWhile isSpace r1
      in if map canonicalize (take 2 s) = map canonicalize (js ''on'') \<and> w \<noteq> []
            \<and> (case r2 of [] \<Rightarrow> False | c # _ \<Rightarrow> c = 61)
         then Some (2 + length w + length sp + 1)
         else None)"

text \<open>\<open>sanitizeInput\<close> on a string (another value is returned as it is).\<close>

definition sanitizeInput :: "jsstring \<Rightarrow> jsstring" where
  "sanitizeInput input =
     trim
      (replace_char 47 (js ''&#x2F;'')
      (replace_char 39 (js ''&#x27;'')
      (replace_char 34 (js ''&quot;'')
      (replace_char 38 (js ''&amp;'')
      (remove_all match_handler
      (remove_all match_javascript
      (filter (\<lambda>c. c \<noteq> 60 \<and> c \<noteq> 62) input)))))))"

definition sanitizeAndValidateForm ::
    "clock \<Rightarrow> formData \<Rightarrow> formData \<times> (js_error + form_result)" where
  "sanitizeAndValidateForm clk fd =
     (let sanitized = \<lparr>id_rec = id_rec fd, description = sanitizeInput (description fd),
            amount = amount fd, category = sanitizeInput (category fd), date = date fd\<rparr>
      in (sanitized, validateForm clk sanitized))"

section \<open>Compiling a search pattern\<close>

text \<open>
  \<open>compileRegex(input, flags = 'i')\<close>. The constructor \<open>RegExp\<close> of the host is a
  parameter: from the pattern text and the flags it gives a regular expression or
  throws a \<open>SyntaxError\<close>. \<open>None\<close> is \<open>null\<close>.
\<close>

definition startsWith_slash :: "jsstring \<Rightarrow> bool" where
  "startsWith_slash p = (case p of [] \<Rightarrow> False | c # _ \<Rightarrow> c = 47)"

definition endsWith_slash :: "jsstring \<Rightarrow> bool" where
  "endsWith_slash p = (case rev p of [] \<Rightarrow> False | c # _ \<Rightarrow> c = 47)"

text \<open>\<open>pattern.slice(1, -1)\<close>.\<close>

definition slice_1_m1 :: "jsstring \<Rightarrow> jsstring" where
  "slice_1_m1 p = butlast (tl p)"

definition compileRegex ::
    "(jsstring \<Rightarrow> jsstring \<Rightarrow> js_error + 'r) \<Rightarrow> jsstring \<Rightarrow> jsstring \<Rightarrow> 'r option" where
  "compileRegex RegExp input flags =
     (if input = [] then None
      else
        let trimmed = trim input;
            pattern = (if startsWith_slash trimmed \<and> endsWith_slash trimmed
                       then slice_1_m1 trimmed else trimmed)
        in if pattern = [] then None
           else case RegExp pattern (if 103 \<in> set flags then flags else flags @ js ''g'') of
                  Inl e \<Rightarrow> None
                | Inr regex \<Rightarrow> Some regex)"

text \<open>
  A host constructor for the patterns that are an alternation of literal texts, with
  the test of such a pattern under the flag \<open>i\<close>: some alternative occurs in the
  string, compared after \<open>Canonicalize\<close>. A pattern with a parenthesis is rejected
  when its parentheses are not balanced; no other syntax is looked at.
\<close>

fun split_bar :: "jsstring \<Rightarrow> jsstring list" where
  "split_bar [] = [[]]"
| "split_bar (c # cs) =
     (case split_bar cs of
        [] \<Rightarrow> [[c]]
      | a # as \<Rightarrow> if c = 124 then [] # a # as else (c # a) # as)"

fun balanced :: "nat \<Rightarrow> jsstring \<Rightarrow> bool" where
  "balanced n [] = (n = 0)"
| "balanced n (c # cs) =
     (if c = 40 then balanced (Suc n) cs
      else if c = 41 then (case n of 0 \<Rightarrow> False | Suc k \<Rightarrow> balanced k cs)
      else balanced n cs)"

definition literal_RegExp :: "jsstring \<Rightarrow> jsstring \<Rightarrow> js_error + jsstring list" where
  "literal_RegExp pattern flags =
     (if balanced 0 pattern then Inr (split_bar pattern) else Inl SyntaxError)"

fun occurs_ci :: "jsstring \<Rightarrow> jsstring \<Rightarrow> bool" where
  "occurs_ci a [] = (a = [])"
| "occurs_ci a (c # cs) =
     (map canonicalize (take (length a) (c # cs)) = map canonicalize a \<or> occurs_ci a cs)"

definition literal_test :: "jsstring list \<Rightarrow> jsstring \<Rightarrow> bool" where
  "literal_test alts s = list_ex (\<lambda>a. occurs_ci a s) alts"

section \<open>Importing records\<close>

text \<open>Truthiness of a JSON value and of a property that may be missing (\<open>undefined\<close>).\<close>

fun truthy :: "json \<Rightarrow> bool" where
  "truthy JNull = False"
| "truthy (JBool b) = b"
| "truthy (JNum n) = (n \<noteq> Fin 0 \<and> n \<noteq> NaN)"
| "truthy (JStr s) = (s \<noteq> [])"
| "truthy (JArr xs) = True"
| "truthy (JObj kvs) = True"

text \<open>
  \<open>record.name\<close> for the five names that \<open>importData\<close> reads: on \<open>null\<close> the access
  throws a \<open>TypeError\<close>; an object gives its property; any other value (a number, a
  string, a boolean, an array) has no property of these names.
\<close>

fun get_prop :: "json \<Rightarrow> string \<Rightarrow> js_error + json option" where
  "get_prop JNull name = Inl TypeError"
| "get_prop (JObj kvs) name = Inr (map_of kvs (js name))"
| "get_prop _ name = Inr None"

definition is_truthy :: "json option \<Rightarrow> bool" where
  "is_truthy v = (case v of None \<Rightarrow> False | Some x \<Rightarrow> truthy x)"

text \<open>\<open>typeof v === 'string'\<close> and \<open>typeof v === 'number'\<close>.\<close>

definition is_string :: "json option \<Rightarrow> bool" where
  "is_string v = (case v of Some (JStr s) \<Rightarrow> True | _ \<Rightarrow> False)"

definition is_number :: "json option \<Rightarrow> bool" where
  "is_number v = (case v of Some (JNum n) \<Rightarrow> True | _ \<Rightarrow> False)"

text \<open>The callback of \<open>data.every\<close>; \<open>&&\<close> stops at the first falsy operand.\<close>

definition record_ok :: "json \<Rightarrow> js_error + bool" where
  "record_ok r =
     and_then (get_prop r ''id'') (\<lambda>i. if \<not> is_truthy i then Inr False else
     and_then (get_prop r ''description'') (\<lambda>d. if \<not> is_string d then Inr False else
     and_then (get_prop r ''amount'') (\<lambda>a. if \<not> is_number a then Inr False else
     and_then (get_prop r ''date'') (\<lambda>t. if \<not> is_truthy t then Inr False else
     and_then (get_prop r ''category'') (\<lambda>c. Inr (is_truthy c))))))"

text \<open>\<open>Array.prototype.every\<close>: stops at the first element the callback rejects.\<close>

fun every :: "('a \<Rightarrow> js_error + bool) \<Rightarrow> 'a list \<Rightarrow> js_error + bool" where
  "every f [] = Inr True"
| "every f (x # xs) = and_then (f x) (\<lambda>ok. if ok then every f xs else Inr False)"

text \<open>The decimal digits of \<open>data.length\<close> in the message.\<close>

function show_nat :: "nat \<Rightarrow> string" where
  "show_nat n =
     (if n < 10 then [''0123456789'' ! n] else show_nat (n div 10) @ [''0123456789'' ! (n mod 10)])"
  by pat_completeness auto

termination
  by (relation "measure (\<lambda>n. n)") auto

text \<open>
  \<open>importData(jsonString)\<close>. \<open>JSON.parse\<close> is the host's and throws a \<open>SyntaxError\<close> on
  a text that is not JSON; the text of the message of an error the host throws is the
  host's too (\<open>hostMessage\<close>), that of an \<open>Error\<close> the function throws itself is given
  in the source. The body of the \<open>try\<close> comes first, then the \<open>catch\<close>.
\<close>

definition import_body :: "(jsstring \<Rightarrow> js_error + json) \<Rightarrow> jsstring \<Rightarrow> js_error + import_result" where
  "import_body JSON_parse jsonString =
     and_then (JSON_parse jsonString) (\<lambda>parsed.
       case parsed of
         JArr xs \<Rightarrow>
           if xs = []
           then Inr \<lparr>success = True, data = Some [],
                     import_result.message = ''Import successful but no records were found.''\<rparr>
           else and_then (every record_ok xs) (\<lambda>isValid.
             if \<not> isValid
             then Inl (Error ''JSON structure is invalid or missing required fields.'')
             else Inr \<lparr>success = True, data = Some xs,
                       import_result.message =
                         ''Successfully imported '' @ show_nat (length xs) @ '' records.''\<rparr>)
       | _ \<Rightarrow> Inl (Error ''Data must be an array.''))"

definition error_message :: "(js_error \<Rightarrow> string) \<Rightarrow> js_error \<Rightarrow> string" where
  "error_message hostMessage e = (case e of Error m \<Rightarrow> m | _ \<Rightarrow> hostMessage e)"

definition importData ::
    "(jsstring \<Rightarrow> js_error + json) \<Rightarrow> (js_error \<Rightarrow> string) \<Rightarrow> jsstring \<Rightarrow> import_result" where
  "importData JSON_parse hostMessage jsonString =
     (case import_body JSON_parse jsonString of
        Inr result \<Rightarrow> result
      | Inl e \<Rightarrow> \<lparr>success = False, data = None,
                  import_result.message = error_message hostMessage e\<rparr>)"

text \<open>The elements that the specification admits, in its words.\<close>

definition well_formed :: "json \<Rightarrow> bool" where
  "well_formed r =
     (case r of
        JObj kvs \<Rightarrow>
          is_truthy (map_of kvs (js ''id'')) \<and> is_string (map_of kvs (js ''description''))
          \<and> is_number (map_of kvs (js ''amount'')) \<and> is_truthy (map_of kvs (js ''date''))
          \<and> is_truthy (map_of kvs (js ''category''))
      | _ \<Rightarrow> False)"

section \<open>The record store\<close>

text \<open>
  A stored record has the fields of the form, with a numeric amount, and two time
  stamps. The state of the module: the collection, the settings, the current sort
  order, and the collections handed to \<open>saveRecords\<close> so far, the latest first (the
  writes to local storage). Of the settings only \<open>budgetCap\<close> is read here; it may be
  missing (\<open>None\<close>).
\<close>

record txn = "jsnum entry" +
  createdAt :: jsstring
  updatedAt :: jsstring

record sortOrder =
  key :: jsstring
  direction :: jsstring

record 'a capped =
  budgetCap :: 'a

type_synonym settings = "jsnum option capped"

record store =
  records :: "txn list"
  settings :: settings
  currentSort :: sortOrder
  saved :: "txn list list"

text \<open>\<open>saveRecords(records)\<close>, as seen from the store: one more write.\<close>

definition saveRecords :: "txn list \<Rightarrow> store \<Rightarrow> store" where
  "saveRecords rs st = st\<lparr>saved := rs # saved st\<rparr>"

text \<open>
  \<open>Array.prototype.sort\<close> with a comparison function. The sort is stable. \<open>le a b\<close>
  says that the comparison of \<open>a\<close> with \<open>b\<close> is not positive, so that \<open>a\<close>, which came
  first, stays in front of \<open>b\<close>. With a consistent comparison function the result is
  the only stable arrangement, and insertion from the right computes it. With an
  inconsistent one (a \<open>NaN\<close> among the amounts when the key is \<open>amount\<close>: \<open>a - b\<close> is
  then \<open>NaN\<close>, which the sort reads as a tie; or a \<open>localeCompare\<close> that is not an
  order) the standard leaves the order to the implementation, and the arrangement that
  the model computes need not be the engine's: what is stated below about the result
  of a sort is stated for amounts without \<open>NaN\<close> and, where the key is a text, for a
  consistent \<open>localeCompare\<close>.
\<close>

fun insort_by :: "('a \<Rightarrow> 'a \<Rightarrow> bool) \<Rightarrow> 'a \<Rightarrow> 'a list \<Rightarrow> 'a list" where
  "insort_by le x [] = [x]"
| "insort_by le x (y # ys) = (if le x y then x # y # ys else y # insort_by le x ys)"

definition sort_by :: "('a \<Rightarrow> 'a \<Rightarrow> bool) \<Rightarrow> 'a list \<Rightarrow> 'a list" where
  "sort_by le xs = foldr (insort_by le) xs []"

text \<open>
  \<open>String(a[key])\<close> for a key whose value is not a number: the text of a field, and
  \<open>undefined\<close> for a key that a record does not have.
\<close>

definition text_field :: "txn \<Rightarrow> jsstring \<Rightarrow> jsstring" where
  "text_field r k =
     (if k = js ''id'' then id_rec r
      else if k = js ''description'' then description r
      else if k = js ''category'' then category r
      else if k = js ''date'' then date r
      else if k = js ''createdAt'' then createdAt r
      else if k = js ''updatedAt'' then updatedAt r
      else js ''undefined'')"

text \<open>
  The comparison function of \<open>sortRecords\<close>. \<open>typeof valA === 'number'\<close> holds for
  the key \<open>amount\<close> and for no other; \<open>localeCompare\<close> is the host's.
\<close>

definition comparison ::
    "(jsstring \<Rightarrow> jsstring \<Rightarrow> int) \<Rightarrow> jsstring \<Rightarrow> jsstring \<Rightarrow> txn \<Rightarrow> txn \<Rightarrow> jsnum" where
  "comparison localeCompare k dir a b =
     (let c = (if k = js ''amount'' then num_sub (amount a) (amount b)
               else Fin (of_int (localeCompare (text_field a k) (text_field b k))))
      in if dir = js ''asc'' then c else num_neg c)"

definition sorted_copy ::
    "(jsstring \<Rightarrow> jsstring \<Rightarrow> int) \<Rightarrow> txn list \<Rightarrow> jsstring \<Rightarrow> jsstring \<Rightarrow> txn list" where
  "sorted_copy localeCompare recordsArray k dir =
     sort_by (\<lambda>a b. \<not> num_gt (comparison localeCompare k dir a b) (Fin 0)) recordsArray"

text \<open>\<open>sortRecords\<close> returns the sorted copy and sets the current sort order.\<close>

definition sortRecords ::
    "(jsstring \<Rightarrow> jsstring \<Rightarrow> int) \<Rightarrow> txn list \<Rightarrow> jsstring \<Rightarrow> jsstring \<Rightarrow> store
       \<Rightarrow> txn list \<times> store" where
  "sortRecords localeCompare recordsArray k dir st =
     (sorted_copy localeCompare recordsArray k dir,
      st\<lparr>currentSort := \<lparr>key = k, direction = dir\<rparr>\<rparr>)"

text \<open>
  \<open>addRecord(recordData)\<close>. The host gives the time stamp \<open>now\<close> and the random
  \<open>uuid\<close>.
\<close>

definition addRecord ::
    "(jsstring \<Rightarrow> jsstring \<Rightarrow> int) \<Rightarrow> jsstring \<Rightarrow> jsstring \<Rightarrow> formData \<Rightarrow> store
       \<Rightarrow> txn \<times> store" where
  "addRecord localeCompare now uuid recordData st =
     (let newRecord = \<lparr>id_rec = js ''txn_'' @ uuid,
            description = trim (description recordData),
            amount = parseFloat (amount recordData),
            category = category recordData,
            date = date recordData,
            createdAt = now, updatedAt = now\<rparr>;
          (sorted, st1) = sortRecords localeCompare (newRecord # records st)
                             (key (currentSort st)) (direction (currentSort st)) st;
          st2 = st1\<lparr>records := sorted\<rparr>
      in (newRecord, saveRecords (records st2) st2))"

text \<open>\<open>Array.prototype.findIndex\<close>; \<open>None\<close> is \<open>-1\<close>.\<close>

fun findIndex :: "('a \<Rightarrow> bool) \<Rightarrow> 'a list \<Rightarrow> nat option" where
  "findIndex p [] = None"
| "findIndex p (x # xs) = (if p x then Some 0 else map_option Suc (findIndex p xs))"

definition updateRecord ::
    "(jsstring \<Rightarrow> jsstring \<Rightarrow> int) \<Rightarrow> jsstring \<Rightarrow> jsstring \<Rightarrow> formData \<Rightarrow> store
       \<Rightarrow> txn option \<times> store" where
  "updateRecord localeCompare now i recordData st =
     (case findIndex (\<lambda>r. id_rec r = i) (records st) of
        None \<Rightarrow> (None, st)
      | Some index \<Rightarrow>
          let updatedRecord = (records st ! index)\<lparr>
                description := trim (description recordData),
                amount := parseFloat (amount recordData),
                category := category recordData,
                date := date recordData,
                updatedAt := now\<rparr>;
              (sorted, st1) = sortRecords localeCompare ((records st)[index := updatedRecord])
                                 (key (currentSort st)) (direction (currentSort st)) st;
              st2 = st1\<lparr>records := sorted\<rparr>
          in (Some updatedRecord, saveRecords (records st2) st2))"

definition deleteRecord :: "jsstring \<Rightarrow> store \<Rightarrow> txn option \<times> store" where
  "deleteRecord i st =
     (case findIndex (\<lambda>r. id_rec r = i) (records st) of
        None \<Rightarrow> (None, st)
      | Some recordIndex \<Rightarrow>
          let deletedRecord = records st ! recordIndex;
              st1 = st\<lparr>records := filter (\<lambda>r. id_rec r \<noteq> i) (records st)\<rparr>
          in (Some deletedRecord, saveRecords (records st1) st1))"

definition setSort ::
    "(jsstring \<Rightarrow> jsstring \<Rightarrow> int) \<Rightarrow> jsstring \<Rightarrow> jsstring \<Rightarrow> store \<Rightarrow> store" where
  "setSort localeCompare k dir st =
     (let st0 = st\<lparr>currentSort := \<lparr>key = k, direction = dir\<rparr>\<rparr>;
          (sorted, st1) = sortRecords localeCompare (records st0) k dir st0;
          st2 = st1\<lparr>records := sorted\<rparr>
      in saveRecords (records st2) st2)"

text \<open>
  \<open>getBudgetInfo()\<close>; \<open>settings.budgetCap || 0\<close> is \<open>0\<close> for a missing, zero or \<open>NaN\<close>
  cap. The total is the \<open>reduce\<close> of the records from the left, starting at \<open>0\<close>, with
  the addition \<open>hostAdd\<close> of the host (\<open>sum + r.amount\<close> on doubles, which rounds), and
  the rest is \<open>budgetCap - totalSpent\<close> with the subtraction \<open>hostSub\<close> of the host.
\<close>

record budgetInfo = "jsnum capped" +
  totalSpent :: jsnum
  remaining :: jsnum
  isOverBudget :: bool

definition getBudgetInfo ::
    "(jsnum \<Rightarrow> jsnum \<Rightarrow> jsnum) \<Rightarrow> (jsnum \<Rightarrow> jsnum \<Rightarrow> jsnum) \<Rightarrow> store \<Rightarrow> budgetInfo" where
  "getBudgetInfo hostAdd hostSub st =
     (let total = foldl (\<lambda>sum r. hostAdd sum (amount r)) (Fin 0) (records st);
          cap = (case budgetCap (settings st) of
                   None \<Rightarrow> Fin 0
                 | Some c \<Rightarrow> if c = Fin 0 \<or> c = NaN then Fin 0 else c);
          rest = hostSub cap total
      in \<lparr>budgetCap = cap, totalSpent = total, remaining = num_abs rest,
          isOverBudget = num_lt rest (Fin 0)\<rparr>)"

text \<open>
  A comparison of strings by code units, which is what \<open>localeCompare\<close> gives on
  ASCII digits and hyphens, and the property of a host's \<open>localeCompare\<close> that makes a
  comparison function consistent.
\<close>

fun codeUnitCompare :: "jsstring \<Rightarrow> jsstring \<Rightarrow> int" where
  "codeUnitCompare [] [] = 0"
| "codeUnitCompare [] (y # ys) = - 1"
| "codeUnitCompare (x # xs) [] = 1"
| "codeUnitCompare (x # xs) (y # ys) =
     (if x < y then - 1 else if y < x then 1 else codeUnitCompare xs ys)"

definition consistent :: "(jsstring \<Rightarrow> jsstring \<Rightarrow> int) \<Rightarrow> bool" where
  "consistent localeCompare =
     ((\<forall>x y. localeCompare x y < 0 \<longleftrightarrow> 0 < localeCompare y x)
      \<and> (\<forall>x y z. localeCompare x y \<le> 0 \<and> localeCompare y z \<le> 0 \<longrightarrow> localeCompare x z \<le> 0))"

section \<open>Notions used in the statements and proofs\<close>

text \<open>A thrown error read as \<open>null\<close>, and the flags with which \<open>compileRegex\<close> compiles.\<close>

definition to_option :: "js_error + 'r \<Rightarrow> 'r option" where
  "to_option x = (case x of Inl e \<Rightarrow> None | Inr r \<Rightarrow> Some r)"

definition with_g :: "jsstring \<Rightarrow> jsstring" where
  "with_g flags = (if 103 \<in> set flags then flags else flags @ js ''g'')"

text \<open>
  The relation by which \<open>sortRecords\<close> sorts, and what makes it an order on a set of
  records.
\<close>

definition le_of ::
    "(jsstring \<Rightarrow> jsstring \<Rightarrow> int) \<Rightarrow> jsstring \<Rightarrow> jsstring \<Rightarrow> txn \<Rightarrow> txn \<Rightarrow> bool" where
  "le_of localeCompare k dir a b = (\<not> num_gt (comparison localeCompare k dir a b) (Fin 0))"

definition cmp_total :: "'a set \<Rightarrow> ('a \<Rightarrow> 'a \<Rightarrow> bool) \<Rightarrow> bool" where
  "cmp_total S le = (\<forall>a\<in>S. \<forall>b\<in>S. le a b \<or> le b a)"

definition cmp_trans :: "'a set \<Rightarrow> ('a \<Rightarrow> 'a \<Rightarrow> bool) \<Rightarrow> bool" where
  "cmp_trans S le = (\<forall>a\<in>S. \<forall>b\<in>S. \<forall>c\<in>S. le a b \<longrightarrow> le b c \<longrightarrow> le a c)"

text \<open>
  A subtraction whose result is negative exactly when the first operand is less than
  the second. The subtraction of IEEE doubles is one (a difference of two doubles
  that are not equal does not round to zero, and \<open>NaN\<close> is not less than anything).
\<close>

definition sign_exact :: "(jsnum \<Rightarrow> jsnum \<Rightarrow> jsnum) \<Rightarrow> bool" where
  "sign_exact hostSub = (\<forall>a b. num_lt (hostSub a b) (Fin 0) = num_lt a b)"

text \<open>
  Concrete inputs. A store whose collection is not in its sort order (by date,
  descending), as after an import or a reload, and the same store in order; a form; two
  records with the same amount; an element of an import with all fields and one with
  only an id.
\<close>

definition mk_txn :: "string \<Rightarrow> rat \<Rightarrow> string \<Rightarrow> txn" where
  "mk_txn i a d = \<lparr>id_rec = js i, description = js ''lunch'', amount = Fin a,
     category = js ''Food'', date = js d, createdAt = [], updatedAt = []\<rparr>"

definition unsorted_store :: store where
  "unsorted_store = \<lparr>records = [mk_txn ''a'' 100 ''2024-01-01'', mk_txn ''b'' 50 ''2024-02-01''],
     settings = \<lparr>budgetCap = Some (Fin 100)\<rparr>,
     currentSort = \<lparr>key = js ''date'', direction = js ''desc''\<rparr>, saved = []\<rparr>"

definition sorted_store :: store where
  "sorted_store = unsorted_store\<lparr>records := [mk_txn ''b'' 50 ''2024-02-01'', mk_txn ''a'' 100 ''2024-01-01'']\<rparr>"

definition tea_form :: formData where
  "tea_form = \<lparr>id_rec = [], description = js ''tea'', amount = js ''3.50'', category = js ''Food'',
     date = js ''2024-01-15''\<rparr>"

definition tie_a :: txn where "tie_a = mk_txn ''a'' 5 ''2024-01-01''"

definition tie_b :: txn where "tie_b = mk_txn ''b'' 5 ''2024-02-01''"

definition sample_record :: json where
  "sample_record = JObj [(js ''id'', JStr (js ''a'')), (js ''description'', JStr (js ''x'')),
     (js ''amount'', JNum (Fin 5)), (js ''date'', JStr (js ''2024-01-01'')),
     (js ''category'', JStr (js ''Food''))]"

definition partial_record :: json where
  "partial_record = JObj [(js ''id'', JStr (js ''a''))]"

section \<open>The patterns decide the formats\<close>

lemmas char_class_defs =
  isLineTerminator_def isWhiteSpace_def isSpace_def isDigit_def isWord_def

lemmas rx_defs =
  test_anchored_def Opt_def NonSpace_def Dot_def Chr_def CharRange_def Digit_def

subsection \<open>The test by derivatives decides the language\<close>

lemma nullable_lang: "nullable r \<longleftrightarrow> [] \<in> lang r"
  by (induction r) (auto simp: conc_def intro: star.star_empty)

lemma star_cons_split:
  assumes "x \<in> star A" and "x = c # w"
  shows "\<exists>u v. w = u @ v \<and> c # u \<in> A \<and> v \<in> star A"
  using assms
proof (induction arbitrary: w rule: star.induct)
  case star_empty
  then show ?case by simp
next
  case (star_step u v)
  show ?case
  proof (cases u)
    case Nil
    with star_step show ?thesis by simp
  next
    case (Cons a u')
    with star_step.prems have "a = c" and "w = u' @ v" by simp_all
    with Cons star_step.hyps show ?thesis by blast
  qed
qed

lemma deriv_lang: "w \<in> lang (deriv c r) \<longleftrightarrow> c # w \<in> lang r"
proof (induction r arbitrary: w)
  case (Cat r s)
  show ?case
  proof
    assume "w \<in> lang (deriv c (Cat r s))"
    then consider (left) "w \<in> conc (lang (deriv c r)) (lang s)"
      | (right) "nullable r" "w \<in> lang (deriv c s)"
      by (auto split: if_splits)
    then show "c # w \<in> lang (Cat r s)"
    proof cases
      case left
      then obtain u v where "w = u @ v" "u \<in> lang (deriv c r)" "v \<in> lang s"
        by (auto simp: conc_def)
      then have "c # w = (c # u) @ v" "c # u \<in> lang r" using Cat.IH(1) by simp_all
      with \<open>v \<in> lang s\<close> show ?thesis unfolding lang.simps conc_def by blast
    next
      case right
      then have "[] \<in> lang r" "c # w \<in> lang s" using Cat.IH(2) by (simp_all add: nullable_lang)
      then have "c # w = [] @ (c # w)" by simp
      with \<open>[] \<in> lang r\<close> \<open>c # w \<in> lang s\<close> show ?thesis unfolding lang.simps conc_def by blast
    qed
  next
    assume "c # w \<in> lang (Cat r s)"
    then obtain u v where uv: "c # w = u @ v" "u \<in> lang r" "v \<in> lang s"
      by (auto simp: conc_def)
    show "w \<in> lang (deriv c (Cat r s))"
    proof (cases u)
      case Nil
      with uv have "nullable r" "w \<in> lang (deriv c s)" using Cat.IH(2) by (simp_all add: nullable_lang)
      then show ?thesis by simp
    next
      case (Cons a u')
      with uv have "w = u' @ v" "u' \<in> lang (deriv c r)" using Cat.IH(1) by simp_all
      with uv(3) have "w \<in> conc (lang (deriv c r)) (lang s)" unfolding conc_def by blast
      then show ?thesis by simp
    qed
  qed
next
  case (Star r)
  show ?case
  proof
    assume "w \<in> lang (deriv c (Star r))"
    then obtain u v where "w = u @ v" "u \<in> lang (deriv c r)" "v \<in> star (lang r)"
      by (auto simp: conc_def)
    then have "c # w = (c # u) @ v" "c # u \<in> lang r" using Star.IH by simp_all
    with \<open>v \<in> star (lang r)\<close> show "c # w \<in> lang (Star r)"
      using star.star_step[of "c # u" "lang r" v] by simp
  next
    assume "c # w \<in> lang (Star r)"
    then obtain u v where "w = u @ v" "c # u \<in> lang r" "v \<in> star (lang r)"
      using star_cons_split[of "c # w" "lang r" c w] by auto
    then show "w \<in> lang (deriv c (Star r))"
      using Star.IH unfolding deriv.simps lang.simps conc_def by blast
  qed
qed auto

lemma derivs_lang: "nullable (derivs r s) \<longleftrightarrow> s \<in> lang r"
  by (induction s arbitrary: r) (simp_all add: nullable_lang deriv_lang)

lemma test_anchored_lang: "test_anchored r s \<longleftrightarrow> s \<in> lang r"
  by (simp add: test_anchored_def derivs_lang)

subsection \<open>The amount pattern\<close>

lemma star_digits: "star (lang Digit) = {ds. list_all isDigit ds}"
proof (intro equalityI subsetI)
  fix x assume "x \<in> star (lang Digit)"
  then show "x \<in> {ds. list_all isDigit ds}"
    by (induction rule: star.induct) (auto simp: Digit_def)
next
  fix x assume "x \<in> {ds. list_all isDigit ds}"
  then have "list_all isDigit x" by simp
  then show "x \<in> star (lang Digit)"
  proof (induction x)
    case Nil
    show ?case by (rule star.star_empty)
  next
    case (Cons c cs)
    then have "[c] \<in> lang Digit" "cs \<in> star (lang Digit)" by (simp_all add: Digit_def)
    then show ?case using star.star_step[of "[c]" "lang Digit" cs] by simp
  qed
qed

lemma of_char_simps [simp]:
  "of_char CHR ''0'' = (48::nat)" "of_char CHR ''1'' = (49::nat)" "of_char CHR ''2'' = (50::nat)"
  "of_char CHR ''3'' = (51::nat)"
  "of_char CHR ''9'' = (57::nat)" "of_char CHR ''.'' = (46::nat)" "of_char CHR ''-'' = (45::nat)"
  by simp_all

lemma conc_Cls: "w \<in> conc {[c] | c. p c} B \<longleftrightarrow> (\<exists>c v. w = c # v \<and> p c \<and> v \<in> B)"
proof
  assume "w \<in> conc {[c] | c. p c} B"
  then show "\<exists>c v. w = c # v \<and> p c \<and> v \<in> B" by (auto simp: conc_def)
next
  assume "\<exists>c v. w = c # v \<and> p c \<and> v \<in> B"
  then obtain c v where "w = [c] @ v" "p c" "v \<in> B" by auto
  then show "w \<in> conc {[c] | c. p c} B" unfolding conc_def by blast
qed

lemma conc_single: "w \<in> conc {[a]} B \<longleftrightarrow> (\<exists>v. w = a # v \<and> v \<in> B)"
  using conc_Cls[of w "\<lambda>x. x = a" B] by simp

lemma conc_Epsilon [simp]: "conc A {[]} = A" "conc {[]} A = A"
  by (auto simp: conc_def)

lemma lang_amount: "s \<in> lang rx_amount \<longleftrightarrow> (\<exists>ip fr. s = ip @ fr \<and> int_part ip \<and> frac_part fr)"
proof -
  have "\<And>ip. ip \<in> lang (Alt (Chr CHR ''0'') (Cat (CharRange CHR ''1'' CHR ''9'') (Star Digit))) \<longleftrightarrow> int_part ip"
    unfolding int_part_def by (simp add: star_digits conc_Cls Chr_def CharRange_def)
  then have L1: "lang (Alt (Chr CHR ''0'') (Cat (CharRange CHR ''1'' CHR ''9'') (Star Digit))) = {ip. int_part ip}"
    by blast
  have "\<And>fr. fr \<in> lang (Opt (Sequence [Chr CHR ''.'', Digit, Opt Digit])) \<longleftrightarrow> frac_part fr"
  proof -
    fix fr :: jsstring
    have "frac_part fr \<longleftrightarrow> fr = [] \<or> (\<exists>d. fr = [46, d] \<and> isDigit d) \<or> (\<exists>d e. fr = [46, d, e] \<and> isDigit d \<and> isDigit e)"
      unfolding frac_part_def
      by (auto simp: length_Suc_conv numeral_2_eq_2)
    then show "fr \<in> lang (Opt (Sequence [Chr CHR ''.'', Digit, Opt Digit])) \<longleftrightarrow> frac_part fr"
      by (auto simp: conc_Cls conc_single Chr_def Opt_def Digit_def)
  qed
  then have L2: "lang (Opt (Sequence [Chr CHR ''.'', Digit, Opt Digit])) = {fr. frac_part fr}"
    by blast
  have e: "rx_amount = Cat (Alt (Chr CHR ''0'') (Cat (CharRange CHR ''1'' CHR ''9'') (Star Digit)))
                (Cat (Opt (Sequence [Chr CHR ''.'', Digit, Opt Digit])) Epsilon)"
    by (simp add: rx_amount_def)
  have "lang rx_amount = conc {ip. int_part ip} {fr. frac_part fr}"
    by (simp only: e lang.simps(5) lang.simps(2) conc_Epsilon L1 L2)
  then show ?thesis
    by (auto simp: conc_def)
qed

lemma split_digits:
  assumes "list_all isDigit ip" and "fr = [] \<or> \<not> isDigit (hd fr)"
  shows "takeWhile isDigit (ip @ fr) = ip" and "dropWhile isDigit (ip @ fr) = fr"
  using assms by (induction ip) (cases fr; auto)+

lemma amount_format_iff: "test_anchored rx_amount s \<longleftrightarrow> amount_format s"
proof -
  have "(\<exists>ip fr. s = ip @ fr \<and> int_part ip \<and> frac_part fr) \<longleftrightarrow> amount_format s"
  proof
    assume "\<exists>ip fr. s = ip @ fr \<and> int_part ip \<and> frac_part fr"
    then obtain ip fr where s: "s = ip @ fr" and ip: "int_part ip" and fr: "frac_part fr" by blast
    from ip have d: "list_all isDigit ip" by (auto simp: int_part_def isDigit_def)
    from fr have n: "fr = [] \<or> \<not> isDigit (hd fr)" by (auto simp: frac_part_def isDigit_def)
    have tw: "takeWhile isDigit s = ip" and dw: "dropWhile isDigit s = fr"
      using split_digits[OF d n] s by simp_all
    show "amount_format s"
      unfolding amount_format_def tw dw Let_def using ip fr
      by (auto simp: int_part_def frac_part_def js_def)
  next
    assume a: "amount_format s"
    define ip where "ip = takeWhile isDigit s"
    define fr where "fr = dropWhile isDigit s"
    have s: "s = ip @ fr" by (simp add: ip_def fr_def)
    have d: "list_all isDigit ip" unfolding ip_def by (simp add: list_all_iff) (meson set_takeWhileD)
    from a have "ip = [48] \<or> (case ip of [] \<Rightarrow> False | c # _ \<Rightarrow> c \<noteq> 48)"
      and f: "(case fr of [] \<Rightarrow> True | c # ds \<Rightarrow> c = 46 \<and> (length ds = 1 \<or> length ds = 2) \<and> list_all isDigit ds)"
      by (simp_all add: amount_format_def ip_def fr_def Let_def js_def)
    with d have "int_part ip"
      by (auto simp: int_part_def isDigit_def split: list.splits)
    moreover from f have "frac_part fr"
      by (auto simp: frac_part_def split: list.splits)
    ultimately show "\<exists>ip fr. s = ip @ fr \<and> int_part ip \<and> frac_part fr" using s by blast
  qed
  then show ?thesis by (simp add: test_anchored_lang lang_amount)
qed

subsection \<open>The date pattern\<close>

lemma conc_pair:
  "w \<in> conc {[a, b] | a b. R a b} B \<longleftrightarrow> (\<exists>a b v. w = a # b # v \<and> R a b \<and> v \<in> B)"
proof
  assume "w \<in> conc {[a, b] | a b. R a b} B"
  then show "\<exists>a b v. w = a # b # v \<and> R a b \<and> v \<in> B" by (auto simp: conc_def)
next
  assume "\<exists>a b v. w = a # b # v \<and> R a b \<and> v \<in> B"
  then obtain a b v where "w = [a, b] @ v" "R a b" "v \<in> B" by auto
  then show "w \<in> conc {[a, b] | a b. R a b} B" unfolding conc_def by blast
qed

lemma lang_month:
  "lang (Alt (Cat (Chr CHR ''0'') (CharRange CHR ''1'' CHR ''9''))
              (Cat (Chr CHR ''1'') (CharRange CHR ''0'' CHR ''2''))) = {[a, b] | a b. month_digits a b}"
proof -
  have "\<And>w. w \<in> lang (Alt (Cat (Chr CHR ''0'') (CharRange CHR ''1'' CHR ''9''))
              (Cat (Chr CHR ''1'') (CharRange CHR ''0'' CHR ''2''))) \<longleftrightarrow> (\<exists>a b. w = [a, b] \<and> month_digits a b)"
    unfolding month_digits_def
    by (simp add: conc_Cls conc_single Chr_def CharRange_def) blast
  then show ?thesis by blast
qed

lemma lang_day:
  "lang (Alt (Cat (Chr CHR ''0'') (CharRange CHR ''1'' CHR ''9''))
         (Alt (Cat (CharRange CHR ''1'' CHR ''2'') Digit)
              (Cat (Chr CHR ''3'') (CharRange CHR ''0'' CHR ''1'')))) = {[a, b] | a b. day_digits a b}"
proof -
  have "\<And>w. w \<in> lang (Alt (Cat (Chr CHR ''0'') (CharRange CHR ''1'' CHR ''9''))
         (Alt (Cat (CharRange CHR ''1'' CHR ''2'') Digit)
              (Cat (Chr CHR ''3'') (CharRange CHR ''0'' CHR ''1'')))) \<longleftrightarrow> (\<exists>a b. w = [a, b] \<and> day_digits a b)"
    unfolding day_digits_def
    by (simp add: conc_Cls conc_single Chr_def CharRange_def Digit_def) blast
  then show ?thesis by blast
qed

lemma lang_date:
  "s \<in> lang rx_date \<longleftrightarrow>
     (\<exists>y1 y2 y3 y4 m1 m2 d1 d2. s = [y1, y2, y3, y4, 45, m1, m2, 45, d1, d2]
        \<and> isDigit y1 \<and> isDigit y2 \<and> isDigit y3 \<and> isDigit y4
        \<and> month_digits m1 m2 \<and> day_digits d1 d2)"
proof -
  have "lang rx_date =
     conc (lang Digit) (conc (lang Digit) (conc (lang Digit) (conc (lang Digit)
       (conc (lang (Chr CHR ''-'')) (conc {[a, b] | a b. month_digits a b}
          (conc (lang (Chr CHR ''-'')) {[a, b] | a b. day_digits a b}))))))"
    unfolding rx_date_def Sequence.simps lang.simps(5) lang_month lang_day lang.simps(2) conc_Epsilon ..
  then show ?thesis
    by (auto simp: conc_pair conc_Cls conc_single Chr_def Digit_def)
qed








section \<open>The steps of the form validation\<close>

text \<open>
  \<open>validateField\<close> never throws on the three rule names that \<open>validateForm\<close> uses,
  each step of \<open>validateForm\<close> writes only the entry of its own field, and the entry
  for the amount and for the date is given by \<open>amount_error\<close> and \<open>date_error\<close>.
\<close>

lemma errors_fail: "errors (fail f m acc) k = (if k = f then Some m else errors acc k)"
  by (simp add: fail_def)

lemma validateField_description:
  "validateField ''description'' v =
     Inr (if v = [] \<or> trim v = [] then \<lparr>isValid = False, message = ''This field is required.''\<rparr>
          else if \<not> test_anchored rx_description (trim v)
            then \<lparr>isValid = False, message = ''Description cannot have leading or trailing spaces.''\<rparr>
          else if \<not> test_anchored rx_description v
            then \<lparr>isValid = False, message = ''Invalid format.''\<rparr>
          else \<lparr>isValid = True, message = ''''\<rparr>)"
  by (simp add: validateField_def REGEX_PATTERNS_def getValidationMessage_def)

lemma validateField_amount:
  "validateField ''amount'' v =
     Inr (if v = [] \<or> trim v = [] then \<lparr>isValid = False, message = ''This field is required.''\<rparr>
          else if \<not> test_anchored rx_amount v
            then \<lparr>isValid = False,
                  message = ''Amount must be a positive number with maximum 2 decimal places.''\<rparr>
          else \<lparr>isValid = True, message = ''''\<rparr>)"
  by (simp add: validateField_def REGEX_PATTERNS_def getValidationMessage_def)

lemma validateField_date:
  "validateField ''date'' v =
     Inr (if v = [] \<or> trim v = [] then \<lparr>isValid = False, message = ''This field is required.''\<rparr>
          else if \<not> test_anchored rx_date v
            then \<lparr>isValid = False, message = ''Date must be in YYYY-MM-DD format.''\<rparr>
          else \<lparr>isValid = True, message = ''''\<rparr>)"
  by (simp add: validateField_def REGEX_PATTERNS_def getValidationMessage_def)

lemma capitalize_fields:
  "capitalize ''description'' = ''Description''" "capitalize ''amount'' = ''Amount''"
  "capitalize ''date'' = ''Date''" "capitalize ''category'' = ''Category''"
  by code_simp+

lemma required_errors:
  "errors (foldl (check_required fd)
       \<lparr>isValid = True, errors = Map.empty, warnings = Map.empty\<rparr> requiredFields) =
     (\<lambda>k. if k = ''category'' \<and> (category fd = [] \<or> trim (category fd) = [])
            then Some ''Category is required.''
          else if k = ''date'' \<and> (date fd = [] \<or> trim (date fd) = [])
            then Some ''Date is required.''
          else if k = ''amount'' \<and> (amount fd = [] \<or> trim (amount fd) = [])
            then Some ''Amount is required.''
          else if k = ''description'' \<and> (description fd = [] \<or> trim (description fd) = [])
            then Some ''Description is required.''
          else None)"
  by (rule ext)
    (simp add: requiredFields_def check_required_def formField_def errors_fail capitalize_fields
       del: capitalize.simps)

lemma check_description_frame:
  "\<exists>acc'. check_description fd acc = Inr acc'
      \<and> (\<forall>k. k \<noteq> ''description'' \<longrightarrow> errors acc' k = errors acc k)"
  by (simp add: check_description_def validateField_description errors_fail)

lemma check_amount_result:
  "\<exists>acc'. check_amount fd acc = Inr acc'
      \<and> errors acc' ''amount'' = amount_error (amount fd) (errors acc ''amount'')
      \<and> (\<forall>k. k \<noteq> ''amount'' \<longrightarrow> errors acc' k = errors acc k)"
  by (simp add: check_amount_def validateField_amount errors_fail amount_error_def)

lemma check_date_result:
  "\<exists>acc'. check_date clk fd acc = Inr acc'
      \<and> errors acc' ''date'' = date_error clk (date fd) (errors acc ''date'')
      \<and> (\<forall>k. k \<noteq> ''date'' \<longrightarrow> errors acc' k = errors acc k)"
  by (simp add: check_date_def validateField_date errors_fail date_error_def)

lemma errors_check_warnings: "errors (check_warnings fd acc) = errors acc"
  by (simp add: check_warnings_def Let_def)

lemma validateForm_errors:
  "\<exists>r. validateForm clk fd = Inr r
     \<and> errors r ''amount'' = amount_error (amount fd)
          (if amount fd = [] \<or> trim (amount fd) = [] then Some ''Amount is required.'' else None)
     \<and> errors r ''date'' = date_error clk (date fd)
          (if date fd = [] \<or> trim (date fd) = [] then Some ''Date is required.'' else None)"
proof -
  define acc0 where "acc0 = foldl (check_required fd)
       \<lparr>isValid = True, errors = Map.empty, warnings = Map.empty\<rparr> requiredFields"
  have e0: "errors acc0 ''amount'' =
       (if amount fd = [] \<or> trim (amount fd) = [] then Some ''Amount is required.'' else None)"
     "errors acc0 ''date'' =
       (if date fd = [] \<or> trim (date fd) = [] then Some ''Date is required.'' else None)"
    unfolding acc0_def required_errors by simp_all
  obtain acc1 where s1: "check_description fd acc0 = Inr acc1"
    and f1: "\<forall>k. k \<noteq> ''description'' \<longrightarrow> errors acc1 k = errors acc0 k"
    using check_description_frame by blast
  obtain acc2 where s2: "check_amount fd acc1 = Inr acc2"
    and a2: "errors acc2 ''amount'' = amount_error (amount fd) (errors acc1 ''amount'')"
    and f2: "\<forall>k. k \<noteq> ''amount'' \<longrightarrow> errors acc2 k = errors acc1 k"
    using check_amount_result by blast
  obtain acc3 where s3: "check_date clk fd acc2 = Inr acc3"
    and a3: "errors acc3 ''date'' = date_error clk (date fd) (errors acc2 ''date'')"
    and f3: "\<forall>k. k \<noteq> ''date'' \<longrightarrow> errors acc3 k = errors acc2 k"
    using check_date_result by blast
  have "validateForm clk fd = Inr (check_warnings fd acc3)"
    by (simp add: validateForm_def acc0_def[symmetric] s1 s2 s3)
  moreover have "errors (check_warnings fd acc3) ''amount'' = amount_error (amount fd) (errors acc0 ''amount'')"
    using a2 f1 f3 by (simp add: errors_check_warnings)
  moreover have "errors (check_warnings fd acc3) ''date'' = date_error clk (date fd) (errors acc0 ''date'')"
    using a3 f1 f2 by (simp add: errors_check_warnings)
  ultimately show ?thesis using e0 by simp
qed

lemma field_error_amount:
  "field_error ''amount'' (validateForm clk fd) = Inr (amount_error (amount fd)
          (if amount fd = [] \<or> trim (amount fd) = [] then Some ''Amount is required.'' else None))"
  using validateForm_errors[of clk fd] by (auto simp: field_error_def)

lemma field_error_date:
  "field_error ''date'' (validateForm clk fd) = Inr (date_error clk (date fd)
          (if date fd = [] \<or> trim (date fd) = [] then Some ''Date is required.'' else None))"
  using validateForm_errors[of clk fd] by (auto simp: field_error_def)

subsection \<open>The amount check\<close>

lemma trim_nonempty: "v \<noteq> [] \<Longrightarrow> \<not> isSpace (hd v) \<Longrightarrow> trim v \<noteq> []"
  by (cases v) (auto simp: trim_def dropWhile_eq_Nil_conv)

lemma amount_format_head:
  assumes "amount_format v"
  shows "v \<noteq> []" and "isDigit (hd v)"
proof -
  from assms have "takeWhile isDigit v \<noteq> []"
    by (auto simp: amount_format_def Let_def js_def split: list.splits)
  then show "v \<noteq> []" "isDigit (hd v)"
    by (cases v; simp split: if_splits)+
qed

lemma digit_not_space: "isDigit c \<Longrightarrow> \<not> isSpace c"
  by (auto simp: char_class_defs)

lemma parseFloat_amount_format:
  assumes "amount_format v"
  shows "\<exists>q. parseFloat v = Fin q"
proof -
  from amount_format_head[OF assms] obtain c cs where v: "v = c # cs" and c: "isDigit c"
    by (cases v) auto
  have "dropWhile isSpace v = v" using v c digit_not_space by simp
  moreover have "signed v = (1, v)" using v c by (auto simp: isDigit_def)
  moreover have "take 8 v \<noteq> js ''Infinity''" using v c by (auto simp: isDigit_def js_def)
  moreover have "takeWhile isDigit v \<noteq> []" using v c by simp
  ultimately show ?thesis by (simp add: parseFloat_def Let_def)
qed

lemma amount_accept_iff:
  "field_error ''amount'' (validateForm clk fd) = Inr None \<longleftrightarrow>
     amount_format (amount fd)
     \<and> num_gt (parseFloat (amount fd)) (Fin 0)
     \<and> num_le (parseFloat (amount fd)) (Fin 999999.99)"
proof (cases "amount_format (amount fd)")
  case True
  then obtain q where q: "parseFloat (amount fd) = Fin q"
    using parseFloat_amount_format by blast
  from True have ne: "amount fd \<noteq> []" "trim (amount fd) \<noteq> []"
    using amount_format_head[OF True] trim_nonempty digit_not_space by auto
  show ?thesis
    using True ne
    by (simp add: field_error_amount amount_error_def amount_format_iff q num_gt_def num_le_def)
next
  case False
  then show ?thesis
    by (auto simp: field_error_amount amount_error_def amount_format_iff)
qed

section \<open>One calendar year back\<close>









subsection \<open>The date check\<close>

lemma date_format_head:
  assumes "test_anchored rx_date v"
  shows "v \<noteq> []" and "trim v \<noteq> []"
proof -
  from assms obtain c cs where v: "v = c # cs" and c: "isDigit c"
    unfolding test_anchored_lang lang_date by auto
  then show "v \<noteq> []" by simp
  from v c show "trim v \<noteq> []" using trim_nonempty[of v] digit_not_space by simp
qed

lemma date_error_format:
  "test_anchored rx_date v \<Longrightarrow>
     date_error clk v prev =
       (if date_gt (parseDate clk v) (Some (today clk)) then Some ''Date cannot be in the future.''
        else if date_lt (parseDate clk v) (Some (oneYearAgo clk))
          then Some ''Date cannot be more than one year ago.''
        else prev)"
  using date_format_head[of v] by (simp add: date_error_def)









subsection \<open>Evaluation at the concrete inputs\<close>


lemma eval_amounts:
  "test_anchored rx_amount (js ''12.34'')" "\<not> test_anchored rx_amount (js ''12.345'')"
  "test_anchored rx_amount (js ''0'')" "test_anchored rx_amount (js ''1000000'')"
  "parseFloat (js ''12.34'') = Fin 12.34" "parseFloat (js ''0'') = Fin 0"
  "parseFloat (js ''1000000'') = Fin 1000000"
  "trim (js ''12.34'') = js ''12.34''" "trim (js ''12.345'') = js ''12.345''"
  "trim (js ''0'') = js ''0''" "trim (js ''1000000'') = js ''1000000''"
  "js ''12.34'' \<noteq> []" "js ''12.345'' \<noteq> []" "js ''0'' \<noteq> []" "js ''1000000'' \<noteq> []"
  by (simp_all add: js_def rx_amount_def rx_defs char_class_defs parseFloat_def digits_val_def
        trim_def)


text \<open>
  The acceptance of a date 366 days in the past is not confined to midnight sharp. In a
  zone ten hours east of UTC, at 08:00 local time of 1 March 2024, the limit is 1 March
  2023 08:00 local time, which is 28 February 22:00 UTC, and \<open>2023-03-01\<close> (midnight
  UTC) is not before it.
\<close>

lemma east_of_utc_morning:
  "field_error ''date''
     (validateForm
        \<lparr>fullYear = 2024, monthIndex = 2, dayOfMonth = 1, timeInDay = 28800000,
         localTZA = 36000000, localTZA_yearAgo = 36000000, rollsOver = False\<rparr>
        (blank_form\<lparr>date := js ''2023-03-01''\<rparr>)) = Inr None"
proof -
  have f: "test_anchored rx_date (js ''2023-03-01'')"
    by (simp add: js_def rx_date_def rx_defs char_class_defs)
  have p: "parseDate c (js ''2023-03-01'') = Some 1677628800000" for c
    using f by (simp add: parseDate_def Let_def)
      (simp add: js_def digits_val_def DaysInMonth_def MakeDate_def MakeDay_def DayFromYear_def
         daysBeforeMonth_def InLeapYear_def msPerDay_def)
  show ?thesis
    using f date_format_head[OF f]
    by (simp add: field_error_date date_error_format p date_gt_def today_def oneYearAgo_def
          MakeDate_def MakeDay_def DayFromYear_def daysBeforeMonth_def InLeapYear_def msPerDay_def)
qed

section \<open>The element check of the import\<close>

lemma record_ok_cases:
  "record_ok r = (case r of JNull \<Rightarrow> Inl TypeError | _ \<Rightarrow> Inr (well_formed r))"
  by (cases r) (auto simp: record_ok_def well_formed_def is_truthy_def is_string_def is_number_def)

lemma every_record_ok:
  "every record_ok xs = Inr True \<longleftrightarrow> list_all well_formed xs"
proof (induction xs)
  case Nil
  show ?case by simp
next
  case (Cons x xs)
  then show ?case by (cases x) (auto simp: record_ok_cases well_formed_def)
qed

lemma every_total: "every record_ok xs = Inr True \<or> every record_ok xs = Inr False
     \<or> every record_ok xs = Inl TypeError"
proof (induction xs)
  case Nil
  show ?case by simp
next
  case (Cons x xs)
  then show ?case by (cases x) (auto simp: record_ok_cases)
qed

section \<open>Characters of a sanitized string\<close>

lemma set_trim: "set (trim s) \<subseteq> set s"
proof -
  have "set (trim s) = set (dropWhile isSpace (rev (dropWhile isSpace s)))"
    by (simp add: trim_def)
  also have "\<dots> \<subseteq> set (rev (dropWhile isSpace s))"
    by (meson set_dropWhileD subsetI)
  also have "\<dots> \<subseteq> set s"
    by (auto dest: set_dropWhileD)
  finally show ?thesis .
qed

lemma set_replace_char: "set (replace_char c rep s) \<subseteq> set s \<union> set rep"
  by (induction s) (auto simp: replace_char_def)

lemma set_remove_all: "set (remove_all m s) \<subseteq> set s"
proof (induction m s rule: remove_all.induct)
  case (1 m)
  show ?case by simp
next
  case (2 m c cs)
  show ?case
  proof (cases "m (c # cs)")
    case None
    with 2 show ?thesis by auto
  next
    case (Some n)
    with 2 have "set (remove_all m (drop (n - 1) cs)) \<subseteq> set (drop (n - 1) cs)" by simp
    also have "\<dots> \<subseteq> set cs" by (rule set_drop_subset)
    finally show ?thesis using Some by auto
  qed
qed

lemma entity_chars:
  "60 \<notin> set (js ''&amp;'')" "62 \<notin> set (js ''&amp;'')"
  "60 \<notin> set (js ''&quot;'')" "62 \<notin> set (js ''&quot;'')"
  "60 \<notin> set (js ''&#x27;'')" "62 \<notin> set (js ''&#x27;'')"
  "60 \<notin> set (js ''&#x2F;'')" "62 \<notin> set (js ''&#x2F;'')"
  by (simp_all add: js_def)

section \<open>Lookup by id and the budget\<close>

lemma findIndex_None: "findIndex p xs = None \<longleftrightarrow> (\<forall>x\<in>set xs. \<not> p x)"
  by (induction xs) auto

lemma num_lt_sub: "num_lt (num_sub c t) (Fin 0) \<longleftrightarrow> num_lt c t"
  by (cases c; cases t) (simp_all add: num_sub_def)

lemma sign_exact_num_sub: "sign_exact num_sub"
  by (simp add: sign_exact_def num_lt_sub)

lemma fold_amounts:
  "foldl (\<lambda>sum r. hostAdd sum (amount r)) a rs = foldl hostAdd a (map amount rs)"
  for rs :: "txn list"
  by (induction rs arbitrary: a) simp_all

section \<open>What the search pattern compiler hands to the host\<close>

text \<open>
  The general behaviour of \<open>compileRegex\<close>: the input is trimmed; when the trimmed text
  starts and ends with a slash, one slash is taken off each end; an empty pattern gives
  \<open>null\<close>; otherwise the pattern goes to the host with the flag \<open>g\<close> added, and an
  error of the host gives \<open>null\<close>.
\<close>

lemma compile_plain:
  assumes "input \<noteq> []" and "\<not> (startsWith_slash (trim input) \<and> endsWith_slash (trim input))"
  shows "compileRegex RegExp input flags =
     (if trim input = [] then None else to_option (RegExp (trim input) (with_g flags)))"
  using assms by (auto simp: compileRegex_def to_option_def with_g_def Let_def)

lemma compile_delimited:
  assumes "input \<noteq> []" and "startsWith_slash (trim input)" and "endsWith_slash (trim input)"
  shows "compileRegex RegExp input flags =
     (if slice_1_m1 (trim input) = [] then None
      else to_option (RegExp (slice_1_m1 (trim input)) (with_g flags)))"
  using assms by (auto simp: compileRegex_def to_option_def with_g_def Let_def)

lemma trims: "trim (js ''/coffee|tea/i'') = js ''/coffee|tea/i''" "trim (js ''coffee|tea'') = js ''coffee|tea''"
  "trim (js ''/coffee|tea/'') = js ''/coffee|tea/''" "trim (js ''(unclosed'') = js ''(unclosed''"
  by (simp_all add: trim_def js_def char_class_defs)

lemma slashes:
  "\<not> endsWith_slash (js ''/coffee|tea/i'')" "\<not> startsWith_slash (js ''coffee|tea'')"
  "startsWith_slash (js ''/coffee|tea/'')" "endsWith_slash (js ''/coffee|tea/'')"
  "\<not> startsWith_slash (js ''(unclosed'')"
  "slice_1_m1 (js ''/coffee|tea/'') = js ''coffee|tea''"
  "js ''/coffee|tea/i'' \<noteq> []" "js ''coffee|tea'' \<noteq> []" "js ''/coffee|tea/'' \<noteq> []"
  "js ''(unclosed'' \<noteq> []" "with_g (js ''i'') = js ''ig''"
  by (simp_all add: js_def startsWith_slash_def endsWith_slash_def slice_1_m1_def with_g_def)

text \<open>
  With the host for alternations of literal texts, the matcher compiled from
  \<open>/coffee|tea/i\<close> has the alternatives \<open>/coffee\<close> and \<open>tea/i\<close> and does not match
  \<open>green tea\<close>, which the matcher compiled from \<open>coffee|tea\<close> matches.
\<close>

lemma literal_host:
  "compileRegex literal_RegExp (js ''/coffee|tea/i'') (js ''i'') = Some [js ''/coffee'', js ''tea/i'']"
  "compileRegex literal_RegExp (js ''coffee|tea'') (js ''i'') = Some [js ''coffee'', js ''tea'']"
  "compileRegex literal_RegExp (js ''(unclosed'') (js ''i'') = None"
  "\<not> literal_test [js ''/coffee'', js ''tea/i''] (js ''green tea'')"
  "literal_test [js ''coffee'', js ''tea''] (js ''green tea'')"
  by (simp_all add: compileRegex_def trims Let_def literal_RegExp_def literal_test_def)
     (simp_all add: js_def startsWith_slash_def endsWith_slash_def slice_1_m1_def canonicalize_def)

section \<open>The stable sort\<close>

lemma set_insort_by: "set (insort_by le x ys) = insert x (set ys)"
  by (induction ys) auto

lemma set_sort_by: "set (sort_by le xs) = set xs"
  by (induction xs) (simp_all add: sort_by_def set_insort_by)

lemma sort_by_Nil [simp]: "sort_by le [] = []"
  by (simp add: sort_by_def)

lemma sort_by_Cons: "sort_by le (x # xs) = insort_by le x (sort_by le xs)"
  by (simp add: sort_by_def)

lemma insort_by_front: "(\<forall>y\<in>set ys. le x y) \<Longrightarrow> insort_by le x ys = x # ys"
  by (cases ys) simp_all

lemma insort_by_back: "(\<forall>y\<in>set ys. \<not> le x y) \<Longrightarrow> insort_by le x ys = ys @ [x]"
  by (induction ys) simp_all

lemma sort_by_sorted: "sorted_wrt le xs \<Longrightarrow> sort_by le xs = xs"
  by (induction xs) (simp_all add: sort_by_Cons insort_by_front)

lemma sort_by_reversed: "sorted_wrt (\<lambda>a b. \<not> le a b) xs \<Longrightarrow> sort_by le xs = rev xs"
  by (induction xs) (simp_all add: sort_by_Cons insort_by_back)

lemma sorted_insort_by:
  assumes tot: "cmp_total S le" and trans: "cmp_trans S le"
    and x: "x \<in> S" and ys: "set ys \<subseteq> S" and s: "sorted_wrt le ys"
  shows "sorted_wrt le (insort_by le x ys)"
  using ys s
proof (induction ys)
  case Nil
  then show ?case by simp
next
  case (Cons y ys)
  from Cons.prems have y: "y \<in> S" and ys: "set ys \<subseteq> S" and yz: "\<forall>z\<in>set ys. le y z"
    and sy: "sorted_wrt le ys" by simp_all
  show ?case
  proof (cases "le x y")
    case True
    have "\<forall>z\<in>set ys. le x z"
    proof
      fix z assume z: "z \<in> set ys"
      then have "z \<in> S" "le y z" using ys yz by auto
      with True x y show "le x z" using trans unfolding cmp_trans_def by blast
    qed
    with True yz sy show ?thesis by simp
  next
    case False
    then have yx: "le y x" using tot x y unfolding cmp_total_def by blast
    have "sorted_wrt le (insort_by le x ys)" using Cons.IH[OF ys sy] .
    moreover have "\<forall>z\<in>set (insort_by le x ys). le y z"
      using yx yz by (simp add: set_insort_by)
    ultimately show ?thesis using False by simp
  qed
qed

lemma sorted_sort_by:
  assumes tot: "cmp_total S le" and trans: "cmp_trans S le" and xs: "set xs \<subseteq> S"
  shows "sorted_wrt le (sort_by le xs)"
  using xs
proof (induction xs)
  case Nil
  show ?case by simp
next
  case (Cons x xs)
  then have "x \<in> S" "set (sort_by le xs) \<subseteq> S" "sorted_wrt le (sort_by le xs)"
    by (simp_all add: set_sort_by)
  then show ?case
    unfolding sort_by_Cons by (rule sorted_insort_by[OF tot trans])
qed

lemma sort_by_idem:
  assumes "cmp_total (set xs) le" and "cmp_trans (set xs) le"
  shows "sort_by le (sort_by le xs) = sort_by le xs"
  by (rule sort_by_sorted) (rule sorted_sort_by[OF assms subset_refl])

lemma distinct_map_insort_by:
  "distinct (map f (insort_by le x ys)) \<longleftrightarrow> f x \<notin> f ` set ys \<and> distinct (map f ys)"
  by (induction ys) (auto simp: set_insort_by)

lemma distinct_map_sort_by: "distinct (map f (sort_by le xs)) \<longleftrightarrow> distinct (map f xs)"
  by (induction xs) (simp_all add: sort_by_Cons distinct_map_insort_by set_sort_by)

subsection \<open>The comparison function of the store\<close>

lemma sorted_copy_le_of: "sorted_copy lc xs k dir = sort_by (le_of lc k dir) xs"
proof -
  have "le_of lc k dir = (\<lambda>a b. \<not> num_gt (comparison lc k dir a b) (Fin 0))"
    by (intro ext) (simp add: le_of_def)
  then show ?thesis by (simp add: sorted_copy_def)
qed

lemma desc_not_asc: "js ''desc'' \<noteq> js ''asc''"
  by (simp add: js_def)

lemma num_sub_pos: "x \<noteq> NaN \<Longrightarrow> y \<noteq> NaN \<Longrightarrow> num_gt (num_sub x y) (Fin 0) \<longleftrightarrow> num_lt y x"
  by (cases x; cases y) (simp_all add: num_sub_def num_gt_def)

lemma num_sub_neg: "x \<noteq> NaN \<Longrightarrow> y \<noteq> NaN \<Longrightarrow> num_gt (num_neg (num_sub x y)) (Fin 0) \<longleftrightarrow> num_lt x y"
  by (cases x; cases y) (simp_all add: num_sub_def num_gt_def)

lemma num_lt_asym: "num_lt x y \<Longrightarrow> \<not> num_lt y x"
  by (cases x; cases y) simp_all

lemma num_lt_trichotomy: "x \<noteq> NaN \<Longrightarrow> y \<noteq> NaN \<Longrightarrow> x = y \<or> num_lt x y \<or> num_lt y x"
  by (cases x; cases y) auto

lemma num_le_trans:
  "x \<noteq> NaN \<Longrightarrow> y \<noteq> NaN \<Longrightarrow> z \<noteq> NaN \<Longrightarrow> \<not> num_lt y x \<Longrightarrow> \<not> num_lt z y \<Longrightarrow> \<not> num_lt z x"
  by (cases x; cases y; cases z) simp_all

lemma le_of_amount:
  assumes "amount a \<noteq> NaN" "amount b \<noteq> NaN"
  shows "le_of lc (js ''amount'') dir a b \<longleftrightarrow>
     (if dir = js ''asc'' then \<not> num_lt (amount b) (amount a) else \<not> num_lt (amount a) (amount b))"
  using assms by (simp add: le_of_def comparison_def num_sub_pos num_sub_neg)

lemma le_of_text:
  assumes "k \<noteq> js ''amount''"
  shows "le_of lc k dir a b \<longleftrightarrow>
     (if dir = js ''asc'' then lc (text_field a k) (text_field b k) \<le> 0
      else 0 \<le> lc (text_field a k) (text_field b k))"
  using assms by (auto simp: le_of_def comparison_def num_gt_def)

lemma cmp_total_le_of:
  assumes "\<forall>r\<in>S. amount r \<noteq> NaN" and "consistent lc"
  shows "cmp_total S (le_of lc k dir)"
proof (cases "k = js ''amount''")
  case True
  show ?thesis
    unfolding cmp_total_def True using assms(1) num_lt_asym
    by (auto simp: le_of_amount)
next
  case False
  have anti: "\<And>x y. lc x y < 0 \<longleftrightarrow> 0 < lc y x"
    using assms(2) unfolding consistent_def by blast
  have "lc x y \<le> 0 \<or> lc y x \<le> 0" "0 \<le> lc x y \<or> 0 \<le> lc y x" for x y
    using anti[of x y] anti[of y x] by linarith+
  then show ?thesis
    unfolding cmp_total_def by (simp add: le_of_text[OF False])
qed

lemma cmp_trans_le_of:
  assumes "\<forall>r\<in>S. amount r \<noteq> NaN" and "consistent lc"
  shows "cmp_trans S (le_of lc k dir)"
proof (cases "k = js ''amount''")
  case True
  show ?thesis
    unfolding cmp_trans_def True
  proof (intro ballI impI)
    fix a b c assume "a \<in> S" "b \<in> S" "c \<in> S"
    then have n: "amount a \<noteq> NaN" "amount b \<noteq> NaN" "amount c \<noteq> NaN" using assms(1) by auto
    assume "le_of lc (js ''amount'') dir a b" "le_of lc (js ''amount'') dir b c"
    then show "le_of lc (js ''amount'') dir a c"
      using n num_le_trans[of "amount a" "amount b" "amount c"]
        num_le_trans[of "amount c" "amount b" "amount a"]
      by (auto simp: le_of_amount split: if_splits)
  qed
next
  case False
  have up: "lc x y \<le> 0 \<Longrightarrow> lc y z \<le> 0 \<Longrightarrow> lc x z \<le> 0" for x y z
    using assms(2) unfolding consistent_def by blast
  have anti: "\<And>x y. lc x y < 0 \<longleftrightarrow> 0 < lc y x"
    using assms(2) unfolding consistent_def by blast
  have flip: "0 \<le> lc x y \<longleftrightarrow> lc y x \<le> 0" for x y
    using anti[of x y] anti[of y x] by linarith
  have down: "0 \<le> lc x y \<Longrightarrow> 0 \<le> lc y z \<Longrightarrow> 0 \<le> lc x z" for x y z
    using up[of z y x] by (simp add: flip)
  show ?thesis
    unfolding cmp_trans_def
  proof (intro ballI impI)
    fix a b c
    assume "le_of lc k dir a b" "le_of lc k dir b c"
    then show "le_of lc k dir a c"
      using up[of "text_field a k" "text_field b k" "text_field c k"]
        down[of "text_field a k" "text_field b k" "text_field c k"]
      by (simp add: le_of_text[OF False] split: if_splits)
  qed
qed

lemma sorted_copy_idem:
  assumes "\<forall>r\<in>set xs. amount r \<noteq> NaN" and "consistent lc"
  shows "sorted_copy lc (sorted_copy lc xs k dir) k dir = sorted_copy lc xs k dir"
  unfolding sorted_copy_le_of
  by (rule sort_by_idem[OF cmp_total_le_of[OF assms] cmp_trans_le_of[OF assms]])

lemma strictly_ascending:
  assumes "sorted_wrt (le_of lc (js ''amount'') (js ''asc'')) ys"
    and "distinct (map amount ys)" and "\<forall>r\<in>set ys. amount r \<noteq> NaN"
  shows "sorted_wrt (\<lambda>a b. \<not> le_of lc (js ''amount'') (js ''desc'') a b) ys"
  using assms
proof (induction ys)
  case Nil
  show ?case by simp
next
  case (Cons y ys)
  have "\<forall>z\<in>set ys. \<not> le_of lc (js ''amount'') (js ''desc'') y z"
  proof
    fix z assume z: "z \<in> set ys"
    with Cons.prems have "le_of lc (js ''amount'') (js ''asc'') y z" "amount y \<noteq> amount z"
      "amount y \<noteq> NaN" "amount z \<noteq> NaN" by auto
    then show "\<not> le_of lc (js ''amount'') (js ''desc'') y z"
      using num_lt_trichotomy[of "amount y" "amount z"]
      by (auto simp: le_of_amount desc_not_asc)
  qed
  with Cons show ?case by simp
qed

lemma asc_then_desc:
  assumes nn: "\<forall>r\<in>set xs. amount r \<noteq> NaN" and d: "distinct (map amount xs)"
  shows "sorted_copy lc (sorted_copy lc xs (js ''amount'') (js ''asc'')) (js ''amount'') (js ''desc'')
       = rev (sorted_copy lc xs (js ''amount'') (js ''asc''))"
proof -
  define ys where "ys = sort_by (le_of lc (js ''amount'') (js ''asc'')) xs"
  have tot: "cmp_total (set xs) (le_of lc (js ''amount'') (js ''asc''))"
    unfolding cmp_total_def using nn num_lt_asym by (auto simp: le_of_amount)
  have tr: "cmp_trans (set xs) (le_of lc (js ''amount'') (js ''asc''))"
    unfolding cmp_trans_def
  proof (intro ballI impI)
    fix a b c assume "a \<in> set xs" "b \<in> set xs" "c \<in> set xs"
    then have n: "amount a \<noteq> NaN" "amount b \<noteq> NaN" "amount c \<noteq> NaN" using nn by auto
    assume "le_of lc (js ''amount'') (js ''asc'') a b" "le_of lc (js ''amount'') (js ''asc'') b c"
    then show "le_of lc (js ''amount'') (js ''asc'') a c"
      using n num_le_trans[of "amount a" "amount b" "amount c"] by (simp add: le_of_amount)
  qed
  have "sorted_wrt (le_of lc (js ''amount'') (js ''asc'')) ys"
    unfolding ys_def by (rule sorted_sort_by[OF tot tr subset_refl])
  moreover have "distinct (map amount ys)" "\<forall>r\<in>set ys. amount r \<noteq> NaN"
    unfolding ys_def using d nn by (simp_all add: distinct_map_sort_by set_sort_by)
  ultimately have "sorted_wrt (\<lambda>a b. \<not> le_of lc (js ''amount'') (js ''desc'') a b) ys"
    by (rule strictly_ascending)
  then have "sort_by (le_of lc (js ''amount'') (js ''desc'')) ys = rev ys"
    by (rule sort_by_reversed)
  then show ?thesis by (simp add: sorted_copy_le_of ys_def)
qed

section \<open>Adding and deleting\<close>

lemma filter_insort_by:
  assumes "\<not> p x" and "\<forall>y\<in>set ys. p y"
  shows "filter p (insort_by le x ys) = ys"
  using assms by (induction ys) auto

lemma findIndex_Some:
  "findIndex p xs = Some n \<Longrightarrow> n < length xs \<and> p (xs ! n)"
proof (induction xs arbitrary: n)
  case Nil
  then show ?case by simp
next
  case (Cons x xs)
  then show ?case by (cases "p x") (auto simp: nth_Cons')
qed

lemma findIndex_exists: "\<exists>x\<in>set xs. p x \<Longrightarrow> \<exists>n. findIndex p xs = Some n"
  using findIndex_None[of p xs] by (cases "findIndex p xs") auto

lemma addRecord_records:
  assumes "sorted_copy lc (records st) (key (currentSort st)) (direction (currentSort st)) = records st"
  shows "records (snd (addRecord lc now uuid recordData st))
       = insort_by (le_of lc (key (currentSort st)) (direction (currentSort st)))
           (fst (addRecord lc now uuid recordData st)) (records st)"
    and "currentSort (snd (addRecord lc now uuid recordData st)) = currentSort st"
    and "id_rec (fst (addRecord lc now uuid recordData st)) = js ''txn_'' @ uuid"
  using assms
  by (simp_all add: addRecord_def sortRecords_def saveRecords_def Let_def sorted_copy_le_of sort_by_Cons)

lemma deleteRecord_found:
  assumes "findIndex (\<lambda>r. id_rec r = i) (records st) = Some n"
  shows "deleteRecord i st = (Some (records st ! n),
     st\<lparr>records := filter (\<lambda>r. id_rec r \<noteq> i) (records st),
        saved := filter (\<lambda>r. id_rec r \<noteq> i) (records st) # saved st\<rparr>)"
  using assms by (simp add: deleteRecord_def saveRecords_def Let_def)

lemma addRecord_sorted:
  "records (snd (addRecord lc now uuid recordData st))
     = sort_by (le_of lc (key (currentSort st)) (direction (currentSort st)))
         (fst (addRecord lc now uuid recordData st) # records st)"
  by (simp add: addRecord_def sortRecords_def saveRecords_def Let_def sorted_copy_le_of)

lemma tea_record:
  "fst (addRecord lc now uuid tea_form st) =
     \<lparr>id_rec = js ''txn_'' @ uuid, description = js ''tea'', amount = Fin 3.5,
      category = js ''Food'', date = js ''2024-01-15'', createdAt = now, updatedAt = now\<rparr>"
  by (simp add: addRecord_def sortRecords_def Let_def tea_form_def split_beta)
     (simp add: js_def trim_def char_class_defs parseFloat_def digits_val_def)

lemma date_order:
  "codeUnitCompare (js ''2024-01-15'') (js ''2024-01-01'') = 1"
  "codeUnitCompare (js ''2024-01-15'') (js ''2024-02-01'') = - 1"
  "codeUnitCompare (js ''2024-01-01'') (js ''2024-02-01'') = - 1"
  by (simp_all add: js_def)

lemma eval_unsorted:
  "records (snd (deleteRecord (id_rec (fst (addRecord codeUnitCompare (js ''T'') (js ''u1'') tea_form unsorted_store)))
        (snd (addRecord codeUnitCompare (js ''T'') (js ''u1'') tea_form unsorted_store))))
     = [mk_txn ''b'' 50 ''2024-02-01'', mk_txn ''a'' 100 ''2024-01-01'']"
proof -
  define r where "r = fst (addRecord codeUnitCompare (js ''T'') (js ''u1'') tea_form unsorted_store)"
  have r: "id_rec r = js ''txn_'' @ js ''u1''" "date r = js ''2024-01-15''"
    unfolding r_def tea_record by simp_all
  have k: "js ''date'' \<noteq> js ''amount''" "js ''date'' \<noteq> js ''id''" "js ''date'' \<noteq> js ''description''"
    "js ''date'' \<noteq> js ''category''" "js ''desc'' \<noteq> js ''asc''"
    by (simp_all add: js_def)
  have t: "text_field x (js ''date'') = date x" for x
    by (simp add: text_field_def k)
  have le: "le_of codeUnitCompare (js ''date'') (js ''desc'') x y \<longleftrightarrow>
      0 \<le> codeUnitCompare (date x) (date y)" for x y
    by (simp add: le_of_text[OF k(1)] k t)
  have s: "records (snd (addRecord codeUnitCompare (js ''T'') (js ''u1'') tea_form unsorted_store))
      = [mk_txn ''b'' 50 ''2024-02-01'', r, mk_txn ''a'' 100 ''2024-01-01'']"
    unfolding addRecord_sorted r_def[symmetric]
    by (simp add: unsorted_store_def sort_by_Cons le r mk_txn_def date_order)
  have ids: "id_rec (mk_txn ''a'' 100 ''2024-01-01'') \<noteq> id_rec r"
      "id_rec (mk_txn ''b'' 50 ''2024-02-01'') \<noteq> id_rec r"
    by (simp_all add: r mk_txn_def js_def)
  show ?thesis
    unfolding r_def[symmetric]
    using ids by (simp add: deleteRecord_def s saveRecords_def Let_def)
qed

subsection \<open>The comparison by code units is consistent\<close>

lemma cuc_anti: "codeUnitCompare x y < 0 \<longleftrightarrow> 0 < codeUnitCompare y x"
  by (induction x y rule: codeUnitCompare.induct) auto

lemma cuc_trans:
  "codeUnitCompare x y \<le> 0 \<Longrightarrow> codeUnitCompare y z \<le> 0 \<Longrightarrow> codeUnitCompare x z \<le> 0"
proof (induction x arbitrary: y z)
  case Nil
  then show ?case by (cases z) simp_all
next
  case (Cons a x)
  from Cons.prems obtain b y' where y: "y = b # y'" by (cases y) auto
  from Cons.prems y obtain c z' where z: "z = c # z'" by (cases z) auto
  from Cons.prems Cons.IH[of y' z'] show ?case
    unfolding y z by (auto split: if_splits)
qed

lemma consistent_codeUnitCompare: "consistent codeUnitCompare"
  unfolding consistent_def using cuc_anti cuc_trans by blast

lemma sorted_store_inorder:
  "sorted_copy codeUnitCompare (records sorted_store) (key (currentSort sorted_store))
      (direction (currentSort sorted_store)) = records sorted_store"
proof -
  have k: "js ''date'' \<noteq> js ''amount''" "js ''date'' \<noteq> js ''id''" "js ''date'' \<noteq> js ''description''"
    "js ''date'' \<noteq> js ''category''" "js ''desc'' \<noteq> js ''asc''"
    by (simp_all add: js_def)
  have "codeUnitCompare (js ''2024-02-01'') (js ''2024-01-01'') = 1" by (simp add: js_def)
  then show ?thesis
    by (simp add: sorted_store_def unsorted_store_def sorted_copy_le_of sort_by_Cons
          le_of_text[OF k(1)] k text_field_def mk_txn_def)
qed

lemma sample_well_formed: "well_formed sample_record" "\<not> well_formed partial_record"
  by (simp_all add: well_formed_def sample_record_def partial_record_def js_def
        is_truthy_def is_string_def is_number_def)

section \<open>Claims about the field validator\<close>

text \<open>
  C1. An amount is accepted by \<open>validateForm\<close> (the form result has no error for it)
  iff it has the format "an integer with no leading zero (or exactly 0), optionally
  followed by a decimal point and 1--2 digits" and its parsed value is greater than \<open>0\<close>
  and at most \<open>999999.99\<close>. Whatever the other fields and the clock are, \<open>12.34\<close>
  passes, \<open>12.345\<close> fails on the format, \<open>0\<close> matches the pattern and fails the
  positivity check, and \<open>1000000\<close> fails the upper bound.
\<close>

theorem C1_amount_validation:
  "(field_error ''amount'' (validateForm clk fd) = Inr None \<longleftrightarrow>
      amount_format (amount fd)
      \<and> num_gt (parseFloat (amount fd)) (Fin 0)
      \<and> num_le (parseFloat (amount fd)) (Fin 999999.99))
   \<and> field_error ''amount'' (validateForm clk (fd\<lparr>amount := js ''12.34''\<rparr>)) = Inr None
   \<and> field_error ''amount'' (validateForm clk (fd\<lparr>amount := js ''12.345''\<rparr>))
        = Inr (Some ''Amount must be a positive number with maximum 2 decimal places.'')
   \<and> test (Anchored rx_amount) (js ''0'')
   \<and> field_error ''amount'' (validateForm clk (fd\<lparr>amount := js ''0''\<rparr>))
        = Inr (Some ''Amount must be greater than 0.'')
   \<and> field_error ''amount'' (validateForm clk (fd\<lparr>amount := js ''1000000''\<rparr>))
        = Inr (Some ''Amount is too large.'')"
proof -
  have "field_error ''amount'' (validateForm clk (fd\<lparr>amount := js ''12.34''\<rparr>)) = Inr None"
    by (simp add: field_error_amount amount_error_def eval_amounts num_le_def num_gt_def)
  moreover have "field_error ''amount'' (validateForm clk (fd\<lparr>amount := js ''12.345''\<rparr>))
        = Inr (Some ''Amount must be a positive number with maximum 2 decimal places.'')"
    by (simp add: field_error_amount amount_error_def eval_amounts)
  moreover have "test (Anchored rx_amount) (js ''0'')"
    by (simp add: eval_amounts)
  moreover have "field_error ''amount'' (validateForm clk (fd\<lparr>amount := js ''0''\<rparr>))
        = Inr (Some ''Amount must be greater than 0.'')"
    by (simp add: field_error_amount amount_error_def eval_amounts num_le_def)
  moreover have "field_error ''amount'' (validateForm clk (fd\<lparr>amount := js ''1000000''\<rparr>))
        = Inr (Some ''Amount is too large.'')"
    by (simp add: field_error_amount amount_error_def eval_amounts num_le_def num_gt_def)
  ultimately show ?thesis using amount_accept_iff[of clk fd] by blast
qed

theorem C1_amount_validation_witness:
  "amount_format (js ''12.34'')
   \<and> num_gt (parseFloat (js ''12.34'')) (Fin 0)
   \<and> num_le (parseFloat (js ''12.34'')) (Fin 999999.99)
   \<and> field_error ''amount'' (validateForm noon_clock (blank_form\<lparr>amount := js ''12.34''\<rparr>))
        = Inr None"
proof -
  have h: "amount_format (js ''12.34'')" "num_gt (parseFloat (js ''12.34'')) (Fin 0)"
    "num_le (parseFloat (js ''12.34'')) (Fin 999999.99)"
    by (simp_all add: amount_format_iff[symmetric] eval_amounts num_gt_def num_le_def)
  then show ?thesis
    using C1_amount_validation[of noon_clock "blank_form\<lparr>amount := js ''12.34''\<rparr>"]
    by simp
qed




text \<open>
  C3. Validating the description \<open>" pizza "\<close> fails, and \<open>"pizza"\<close> passes. The
  message of the failure is not the whitespace-specific one: the special case of
  \<open>validateField\<close> tests the trimmed value, which matches the pattern, so the
  untrimmed value falls through to the standard test and receives the generic
  \<open>Invalid format.\<close> of \<open>getValidationMessage\<close>.
\<close>

theorem C3_pizza_message:
  "validateField ''description'' (js '' pizza '')
     = Inr \<lparr>isValid = False, message = ''Invalid format.''\<rparr>
   \<and> validateField ''description'' (js ''pizza'') = Inr \<lparr>isValid = True, message = ''''\<rparr>"
  by (simp add: validateField_def js_def trim_def REGEX_PATTERNS_def rx_description_def
        rx_defs char_class_defs getValidationMessage_def)

text \<open>
  C10. The output of \<open>sanitizeInput\<close> contains neither \<open><\<close> (code unit 60) nor \<open>>\<close>
  (code unit 62), for every input string: the first step removes them and no later
  step brings one in.
\<close>

theorem C10_no_angle_brackets:
  "60 \<notin> set (sanitizeInput input) \<and> 62 \<notin> set (sanitizeInput input)"
proof -
  define s0 where "s0 = filter (\<lambda>c. c \<noteq> 60 \<and> c \<noteq> 62) input"
  define s1 where "s1 = remove_all match_handler (remove_all match_javascript s0)"
  define s2 where "s2 = replace_char 38 (js ''&amp;'') s1"
  define s3 where "s3 = replace_char 34 (js ''&quot;'') s2"
  define s4 where "s4 = replace_char 39 (js ''&#x27;'') s3"
  define s5 where "s5 = replace_char 47 (js ''&#x2F;'') s4"
  have 0: "60 \<notin> set s0 \<and> 62 \<notin> set s0" by (simp add: s0_def)
  have 1: "60 \<notin> set s1 \<and> 62 \<notin> set s1"
    using 0 set_remove_all[of match_handler "remove_all match_javascript s0"]
      set_remove_all[of match_javascript s0] unfolding s1_def by blast
  have 2: "60 \<notin> set s2 \<and> 62 \<notin> set s2"
    using 1 set_replace_char[of 38 "js ''&amp;''" s1] entity_chars unfolding s2_def by blast
  have 3: "60 \<notin> set s3 \<and> 62 \<notin> set s3"
    using 2 set_replace_char[of 34 "js ''&quot;''" s2] entity_chars unfolding s3_def by blast
  have 4: "60 \<notin> set s4 \<and> 62 \<notin> set s4"
    using 3 set_replace_char[of 39 "js ''&#x27;''" s3] entity_chars unfolding s4_def by blast
  have 5: "60 \<notin> set s5 \<and> 62 \<notin> set s5"
    using 4 set_replace_char[of 47 "js ''&#x2F;''" s4] entity_chars unfolding s5_def by blast
  have "sanitizeInput input = trim s5"
    by (simp add: sanitizeInput_def s5_def s4_def s3_def s2_def s1_def s0_def)
  then show ?thesis using 5 set_trim[of s5] by auto
qed

section \<open>Claims about the pattern engine\<close>

text \<open>
  C4. What \<open>compileRegex\<close> hands to the constructor of the host, for every such
  constructor. The input \<open>/coffee|tea/i\<close> ends with the flag letter, not with a slash,
  so nothing is stripped and the text with both slashes and the \<open>i\<close> is compiled as
  the pattern; \<open>coffee|tea\<close> and \<open>/coffee|tea/\<close> compile the pattern \<open>coffee|tea\<close>. The
  result for \<open>(unclosed\<close> is \<open>null\<close> when the host rejects that pattern. So the claim
  that \<open>/coffee|tea/i\<close> and \<open>coffee|tea\<close> give equivalent matchers fails; the lemma
  \<open>literal_host\<close> above shows it on the string \<open>green tea\<close>.
\<close>

theorem C4_compile:
  "compileRegex RegExp (js ''/coffee|tea/i'') (js ''i'')
      = to_option (RegExp (js ''/coffee|tea/i'') (js ''ig''))
   \<and> compileRegex RegExp (js ''coffee|tea'') (js ''i'')
      = to_option (RegExp (js ''coffee|tea'') (js ''ig''))
   \<and> compileRegex RegExp (js ''/coffee|tea/'') (js ''i'')
      = to_option (RegExp (js ''coffee|tea'') (js ''ig''))
   \<and> compileRegex RegExp (js ''(unclosed'') (js ''i'')
      = to_option (RegExp (js ''(unclosed'') (js ''ig''))"
proof -
  have "compileRegex RegExp (js ''/coffee|tea/i'') (js ''i'')
      = to_option (RegExp (js ''/coffee|tea/i'') (js ''ig''))"
    by (subst compile_plain) (simp_all add: trims slashes)
  moreover have "compileRegex RegExp (js ''coffee|tea'') (js ''i'')
      = to_option (RegExp (js ''coffee|tea'') (js ''ig''))"
    by (subst compile_plain) (simp_all add: trims slashes)
  moreover have "compileRegex RegExp (js ''/coffee|tea/'') (js ''i'')
      = to_option (RegExp (js ''coffee|tea'') (js ''ig''))"
    by (subst compile_delimited) (simp_all add: trims slashes)
  moreover have "compileRegex RegExp (js ''(unclosed'') (js ''i'')
      = to_option (RegExp (js ''(unclosed'') (js ''ig''))"
    by (subst compile_plain) (simp_all add: trims slashes)
  ultimately show ?thesis by simp
qed

section \<open>Claims about import\<close>

text \<open>
  C5. \<open>importData\<close> succeeds exactly on the texts that parse to an array all of whose
  elements are objects with a truthy \<open>id\<close>, a string \<open>description\<close>, a numeric
  \<open>amount\<close>, a truthy \<open>date\<close> and a truthy \<open>category\<close> (the empty array among them);
  then the data returned is the whole array. Otherwise the result is a failure with no
  data, never a part of the array, and its message is that of the error: one of the two
  fixed texts, or the text of the host for the \<open>SyntaxError\<close> of \<open>JSON.parse\<close> or for
  the \<open>TypeError\<close> of reading a property of a \<open>null\<close> element.
\<close>

theorem C5_import_all_or_nothing:
  "(success (importData JSON_parse hostMessage s) \<longleftrightarrow>
      (\<exists>xs. JSON_parse s = Inr (JArr xs) \<and> list_all well_formed xs))
   \<and> (\<forall>xs. JSON_parse s = Inr (JArr xs) \<and> list_all well_formed xs \<longrightarrow>
        data (importData JSON_parse hostMessage s) = Some xs)
   \<and> (\<not> success (importData JSON_parse hostMessage s) \<longrightarrow>
        data (importData JSON_parse hostMessage s) = None
        \<and> (import_result.message (importData JSON_parse hostMessage s) = ''Data must be an array.''
           \<or> import_result.message (importData JSON_parse hostMessage s)
                = ''JSON structure is invalid or missing required fields.''
           \<or> import_result.message (importData JSON_parse hostMessage s) = hostMessage TypeError
           \<or> (\<exists>e. JSON_parse s = Inl e
                \<and> import_result.message (importData JSON_parse hostMessage s)
                     = error_message hostMessage e)))"
proof (cases "JSON_parse s")
  case (Inl e)
  then show ?thesis by (simp add: importData_def import_body_def)
next
  case (Inr parsed)
  show ?thesis
  proof (cases parsed)
    case (JArr xs)
    show ?thesis
      using every_total[of xs] every_record_ok[of xs]
      by (auto simp: importData_def import_body_def Inr JArr error_message_def)
  qed (simp_all add: importData_def import_body_def Inr error_message_def)
qed

theorem C5_import_all_or_nothing_witness:
  "list_all well_formed [sample_record]
   \<and> success (importData (\<lambda>s. Inr (JArr [sample_record])) (\<lambda>e. ''host error'') [])
   \<and> data (importData (\<lambda>s. Inr (JArr [sample_record])) (\<lambda>e. ''host error'') [])
        = Some [sample_record]
   \<and> \<not> success (importData (\<lambda>s. Inr (JArr [sample_record, partial_record]))
           (\<lambda>e. ''host error'') [])
   \<and> data (importData (\<lambda>s. Inr (JArr [sample_record, partial_record])) (\<lambda>e. ''host error'') [])
        = None"
proof -
  have w: "list_all well_formed [sample_record]" "\<not> list_all well_formed [sample_record, partial_record]"
    by (simp_all add: sample_well_formed)
  have "success (importData (\<lambda>s. Inr (JArr [sample_record])) (\<lambda>e. ''host error'') [])"
    "data (importData (\<lambda>s. Inr (JArr [sample_record])) (\<lambda>e. ''host error'') []) = Some [sample_record]"
    using w(1) C5_import_all_or_nothing[of "\<lambda>s. Inr (JArr [sample_record])" "\<lambda>e. ''host error''" "[]"]
    by simp_all
  moreover have n: "\<not> success (importData (\<lambda>s. Inr (JArr [sample_record, partial_record]))
       (\<lambda>e. ''host error'') [])"
    using w(2) C5_import_all_or_nothing[of "\<lambda>s. Inr (JArr [sample_record, partial_record])"
        "\<lambda>e. ''host error''" "[]"]
    by simp
  moreover have "data (importData (\<lambda>s. Inr (JArr [sample_record, partial_record]))
       (\<lambda>e. ''host error'') []) = None"
    using n C5_import_all_or_nothing[of "\<lambda>s. Inr (JArr [sample_record, partial_record])"
        "\<lambda>e. ''host error''" "[]"]
    by blast
  ultimately show ?thesis using w(1) by simp
qed

section \<open>Claims about the record store\<close>

text \<open>
  C6, as the specification states it, fails: \<open>addRecord\<close> sorts the whole collection,
  so on a store whose two records are not in the current sort order (date, descending)
  adding a record and deleting it by the id returned leaves the two records in the
  opposite order.
\<close>

theorem C6_counterexample:
  "records (snd (deleteRecord
       (id_rec (fst (addRecord codeUnitCompare (js ''T'') (js ''u1'') tea_form unsorted_store)))
       (snd (addRecord codeUnitCompare (js ''T'') (js ''u1'') tea_form unsorted_store))))
     \<noteq> records unsorted_store"
  unfolding eval_unsorted by (simp add: unsorted_store_def mk_txn_def js_def)

text \<open>
  C6, amended. For a store whose amounts are numbers (none is \<open>NaN\<close>), a form whose
  amount reads as a number, and a consistent \<open>localeCompare\<close>: when the collection is
  already in the current sort order (sorting it by the current key and direction gives
  it back) and the id generated is not the id of a record of the collection, then
  \<open>addRecord\<close> followed by \<open>deleteRecord\<close> with the id of the record returned gives
  back that record, and leaves the collection as it was before the add, element for
  element and in the same order, and the sort order too.
\<close>

theorem C6_round_trip:
  assumes numbers: "\<forall>r\<in>set (records st). amount r \<noteq> NaN"
    and number: "parseFloat (amount recordData) \<noteq> NaN"
    and lc: "consistent lc"
    and fresh: "\<forall>r\<in>set (records st). id_rec r \<noteq> js ''txn_'' @ uuid"
    and inorder: "sorted_copy lc (records st) (key (currentSort st)) (direction (currentSort st))
                    = records st"
  shows "fst (deleteRecord (id_rec (fst (addRecord lc now uuid recordData st)))
                (snd (addRecord lc now uuid recordData st)))
           = Some (fst (addRecord lc now uuid recordData st))
       \<and> records (snd (deleteRecord (id_rec (fst (addRecord lc now uuid recordData st)))
                (snd (addRecord lc now uuid recordData st)))) = records st
       \<and> currentSort (snd (deleteRecord (id_rec (fst (addRecord lc now uuid recordData st)))
                (snd (addRecord lc now uuid recordData st)))) = currentSort st"
proof -
  define r where "r = fst (addRecord lc now uuid recordData st)"
  define st1 where "st1 = snd (addRecord lc now uuid recordData st)"
  define le where "le = le_of lc (key (currentSort st)) (direction (currentSort st))"
  have rs: "records st1 = insort_by le r (records st)" and cs: "currentSort st1 = currentSort st"
    and i: "id_rec r = js ''txn_'' @ uuid"
    unfolding r_def st1_def le_def using addRecord_records[OF inorder] by simp_all
  have "r \<in> set (records st1)" by (simp add: rs set_insort_by)
  then obtain n where n: "findIndex (\<lambda>x. id_rec x = id_rec r) (records st1) = Some n"
    using findIndex_exists[of "records st1" "\<lambda>x. id_rec x = id_rec r"] by blast
  then have "n < length (records st1)" "id_rec (records st1 ! n) = id_rec r"
    using findIndex_Some by fastforce+
  then have "records st1 ! n \<in> set (records st1)" "id_rec (records st1 ! n) = id_rec r"
    by simp_all
  then have at: "records st1 ! n = r"
    using fresh i by (auto simp: rs set_insort_by)
  have f: "filter (\<lambda>x. id_rec x \<noteq> id_rec r) (records st1) = records st"
    unfolding rs using fresh i by (intro filter_insort_by) auto
  show ?thesis
    unfolding r_def[symmetric] st1_def[symmetric]
    by (simp add: deleteRecord_found[OF n] at f cs)
qed

theorem C6_round_trip_witness:
  "list_all (\<lambda>r. amount r \<noteq> NaN) (records sorted_store)
   \<and> parseFloat (amount tea_form) \<noteq> NaN
   \<and> consistent codeUnitCompare
   \<and> list_all (\<lambda>r. id_rec r \<noteq> js ''txn_'' @ js ''u1'') (records sorted_store)
   \<and> sorted_copy codeUnitCompare (records sorted_store) (key (currentSort sorted_store))
        (direction (currentSort sorted_store)) = records sorted_store
   \<and> records (snd (deleteRecord
        (id_rec (fst (addRecord codeUnitCompare (js ''T'') (js ''u1'') tea_form sorted_store)))
        (snd (addRecord codeUnitCompare (js ''T'') (js ''u1'') tea_form sorted_store))))
      = records sorted_store"
proof -
  have n: "\<forall>r\<in>set (records sorted_store). amount r \<noteq> NaN"
    by (simp add: sorted_store_def unsorted_store_def mk_txn_def)
  have p: "parseFloat (amount tea_form) \<noteq> NaN"
    by (simp add: tea_form_def js_def parseFloat_def char_class_defs digits_val_def)
  have f: "\<forall>r\<in>set (records sorted_store). id_rec r \<noteq> js ''txn_'' @ js ''u1''"
    by (simp add: sorted_store_def unsorted_store_def mk_txn_def js_def)
  show ?thesis
    using n p f sorted_store_inorder consistent_codeUnitCompare
      C6_round_trip[OF n p consistent_codeUnitCompare f sorted_store_inorder, of "js ''T''"]
    by (simp add: list_all_iff)
qed

text \<open>
  C7, as the specification states it, fails: the sort is stable, so two records with
  the same amount keep their order under the ascending and under the descending sort,
  and the descending sort of the ascending result is not its reverse.
\<close>

theorem C7_counterexample:
  "fst (sortRecords codeUnitCompare
         (fst (sortRecords codeUnitCompare [tie_a, tie_b] (js ''amount'') (js ''asc'') unsorted_store))
         (js ''amount'') (js ''desc'') unsorted_store)
     \<noteq> rev (fst (sortRecords codeUnitCompare [tie_a, tie_b] (js ''amount'') (js ''asc'') unsorted_store))"
proof -
  have n: "amount tie_a = Fin 5" "amount tie_b = Fin 5" "tie_a \<noteq> tie_b"
    by (simp_all add: tie_a_def tie_b_def mk_txn_def js_def)
  have le: "le_of codeUnitCompare (js ''amount'') dir x y" if "amount x = Fin 5" "amount y = Fin 5"
    for dir x y
    using that by (simp add: le_of_amount)
  show ?thesis
    using n by (simp add: sortRecords_def sorted_copy_le_of sort_by_Cons le)
qed

text \<open>
  C7, amended. For a list of records whose amounts are numbers (none is \<open>NaN\<close>):
  when the amounts are pairwise distinct, sorting by amount ascending and then
  descending gives the exact reverse of the ascending result; and, with a consistent
  \<open>localeCompare\<close>, sorting twice by the same key and direction equals sorting once,
  for every key and direction.
\<close>

theorem C7_sort:
  assumes "\<forall>r\<in>set xs. amount r \<noteq> NaN"
  shows "(distinct (map amount xs) \<longrightarrow>
          fst (sortRecords lc (fst (sortRecords lc xs (js ''amount'') (js ''asc'') st))
                 (js ''amount'') (js ''desc'') st')
            = rev (fst (sortRecords lc xs (js ''amount'') (js ''asc'') st)))
       \<and> (consistent lc \<longrightarrow>
          fst (sortRecords lc (fst (sortRecords lc xs k dir st)) k dir st')
            = fst (sortRecords lc xs k dir st))"
  using asc_then_desc[OF assms, of lc] sorted_copy_idem[OF assms, of lc k dir]
  by (simp add: sortRecords_def)

theorem C7_sort_witness:
  "list_all (\<lambda>r. amount r \<noteq> NaN) (records unsorted_store)
   \<and> distinct (map amount (records unsorted_store))
   \<and> consistent codeUnitCompare
   \<and> fst (sortRecords codeUnitCompare
            (fst (sortRecords codeUnitCompare (records unsorted_store) (js ''amount'') (js ''asc'')
                    unsorted_store))
            (js ''amount'') (js ''desc'') unsorted_store)
       = rev (fst (sortRecords codeUnitCompare (records unsorted_store) (js ''amount'') (js ''asc'')
                    unsorted_store))
   \<and> fst (sortRecords codeUnitCompare
            (fst (sortRecords codeUnitCompare (records unsorted_store) (js ''date'') (js ''desc'')
                    unsorted_store))
            (js ''date'') (js ''desc'') unsorted_store)
       = fst (sortRecords codeUnitCompare (records unsorted_store) (js ''date'') (js ''desc'')
                    unsorted_store)"
proof -
  have n: "\<forall>r\<in>set (records unsorted_store). amount r \<noteq> NaN"
    and d: "distinct (map amount (records unsorted_store))"
    by (simp_all add: unsorted_store_def mk_txn_def)
  show ?thesis
    using n d consistent_codeUnitCompare
      C7_sort[OF n, of codeUnitCompare unsorted_store unsorted_store "js ''date''" "js ''desc''"]
    by (simp add: list_all_iff)
qed

text \<open>
  C8. For every store, and for every addition and subtraction of the host,
  \<open>getBudgetInfo\<close> returns as \<open>budgetCap\<close> the cap of the settings, or \<open>0\<close> when that
  is missing, zero or \<open>NaN\<close>; as \<open>totalSpent\<close> the sum of the amounts of all records,
  added from the left starting at \<open>0\<close>; and as \<open>remaining\<close> the absolute value of
  the returned cap minus the returned total. With a subtraction that is exact in
  sign, as that of doubles is, \<open>isOverBudget\<close> holds iff the total spent exceeds the
  cap. With a cap of \<open>100\<close> and a total of \<open>150\<close>, whose difference \<open>-50\<close> the host
  computes without rounding, it returns \<open>remaining = 50\<close> and \<open>isOverBudget = true\<close>.
\<close>

theorem C8_budget:
  "budgetCap (getBudgetInfo hostAdd hostSub st)
      = (case budgetCap (settings st) of
           None \<Rightarrow> Fin 0
         | Some c \<Rightarrow> if c = Fin 0 \<or> c = NaN then Fin 0 else c)
   \<and> totalSpent (getBudgetInfo hostAdd hostSub st)
      = foldl hostAdd (Fin 0) (map amount (records st))
   \<and> remaining (getBudgetInfo hostAdd hostSub st)
      = num_abs (hostSub (budgetCap (getBudgetInfo hostAdd hostSub st))
                   (totalSpent (getBudgetInfo hostAdd hostSub st)))
   \<and> (sign_exact hostSub \<longrightarrow>
        (isOverBudget (getBudgetInfo hostAdd hostSub st)
           \<longleftrightarrow> num_gt (totalSpent (getBudgetInfo hostAdd hostSub st))
                 (budgetCap (getBudgetInfo hostAdd hostSub st))))
   \<and> (budgetCap (settings st) = Some (Fin 100)
        \<and> totalSpent (getBudgetInfo hostAdd hostSub st) = Fin 150
        \<and> hostSub (Fin 100) (Fin 150) = Fin (- 50) \<longrightarrow>
        remaining (getBudgetInfo hostAdd hostSub st) = Fin 50
        \<and> isOverBudget (getBudgetInfo hostAdd hostSub st))"
proof -
  have "budgetCap (settings st) = Some (Fin 100) \<Longrightarrow>
        totalSpent (getBudgetInfo hostAdd hostSub st) = Fin 150 \<Longrightarrow>
        hostSub (Fin 100) (Fin 150) = Fin (- 50) \<Longrightarrow>
        remaining (getBudgetInfo hostAdd hostSub st) = Fin 50
        \<and> isOverBudget (getBudgetInfo hostAdd hostSub st)"
    by (simp add: getBudgetInfo_def Let_def)
  moreover have "sign_exact hostSub \<Longrightarrow>
        (isOverBudget (getBudgetInfo hostAdd hostSub st)
           \<longleftrightarrow> num_gt (totalSpent (getBudgetInfo hostAdd hostSub st))
                 (budgetCap (getBudgetInfo hostAdd hostSub st)))"
    by (simp add: getBudgetInfo_def Let_def sign_exact_def num_gt_def)
  ultimately show ?thesis
    by (simp add: getBudgetInfo_def Let_def fold_amounts)
qed

theorem C8_budget_witness:
  "sign_exact num_sub
   \<and> budgetCap (settings unsorted_store) = Some (Fin 100)
   \<and> num_sub (Fin 100) (Fin 150) = Fin (- 50)
   \<and> budgetCap (getBudgetInfo num_add num_sub unsorted_store) = Fin 100
   \<and> totalSpent (getBudgetInfo num_add num_sub unsorted_store) = Fin 150
   \<and> remaining (getBudgetInfo num_add num_sub unsorted_store) = Fin 50
   \<and> isOverBudget (getBudgetInfo num_add num_sub unsorted_store)
   \<and> num_gt (totalSpent (getBudgetInfo num_add num_sub unsorted_store))
        (budgetCap (getBudgetInfo num_add num_sub unsorted_store))"
proof -
  have s: "sign_exact num_sub"
    by (rule sign_exact_num_sub)
  have c: "budgetCap (settings unsorted_store) = Some (Fin 100)"
    and m: "map amount (records unsorted_store) = [Fin 100, Fin 50]"
    by (simp_all add: unsorted_store_def mk_txn_def)
  have d: "num_sub (Fin 100) (Fin 150) = Fin (- 50)"
    by (simp add: num_sub_def)
  have b: "budgetCap (getBudgetInfo num_add num_sub unsorted_store) = Fin 100"
    using c C8_budget[of num_add num_sub unsorted_store] by simp
  have t: "totalSpent (getBudgetInfo num_add num_sub unsorted_store) = Fin 150"
    using m C8_budget[of num_add num_sub unsorted_store] by simp
  have r: "remaining (getBudgetInfo num_add num_sub unsorted_store) = Fin 50
           \<and> isOverBudget (getBudgetInfo num_add num_sub unsorted_store)"
    using c t d C8_budget[of num_add num_sub unsorted_store] by blast
  have g: "num_gt (totalSpent (getBudgetInfo num_add num_sub unsorted_store))
        (budgetCap (getBudgetInfo num_add num_sub unsorted_store))"
    using s r C8_budget[of num_add num_sub unsorted_store] by blast
  show ?thesis
    using s c d b t r g by simp
qed

text \<open>
  C9. For an id that no record of the collection has, \<open>updateRecord\<close> and
  \<open>deleteRecord\<close> return \<open>null\<close> and the state they leave is the state they found: the
  same collection, the same sort order and no further write to storage.
\<close>

theorem C9_not_found:
  assumes "\<forall>r\<in>set (records st). id_rec r \<noteq> i"
  shows "updateRecord localeCompare now i recordData st = (None, st)
       \<and> deleteRecord i st = (None, st)"
proof -
  have "findIndex (\<lambda>r. id_rec r = i) (records st) = None"
    using assms by (simp add: findIndex_None)
  then show ?thesis by (simp add: updateRecord_def deleteRecord_def)
qed

theorem C9_not_found_witness:
  "list_all (\<lambda>r. id_rec r \<noteq> js ''zz'') (records unsorted_store)
   \<and> updateRecord codeUnitCompare (js ''T'') (js ''zz'') tea_form unsorted_store
        = (None, unsorted_store)
   \<and> deleteRecord (js ''zz'') unsorted_store = (None, unsorted_store)"
proof -
  have f: "\<forall>r\<in>set (records unsorted_store). id_rec r \<noteq> js ''zz''"
    by (simp add: unsorted_store_def mk_txn_def js_def)
  show ?thesis
    using f C9_not_found[OF f, of codeUnitCompare "js ''T''" tea_form]
    by (simp add: list_all_iff)
qed

end
